theory Spec2Isabelle
  imports Main "HOL-Library.AList"
begin

section \<open>Data model (src/resolver/types.ts)\<close>

text \<open>
  \<^verbatim>\<open>ResolvedValue\<close> is the interface
  \<^verbatim>\<open>{ type: "string" | "object" | "unresolved"; value?: string; properties?: Map }\<close>.
  The two optional fields are kept optional. A JavaScript \<^verbatim>\<open>Map\<close> iterates in
  insertion order and \<^verbatim>\<open>set\<close> on a present key keeps the key's position, so a
  \<^verbatim>\<open>Map\<close> is an association list read with \<open>map_of\<close> and written with
  \<open>AList.update\<close>.
\<close>

datatype RType = TString | TObject | TUnresolved

datatype ResolvedValue =
  ResolvedValue (rtype: RType) (rvalue: "string option")
                (properties: "(string \<times> ResolvedValue) list option")

type_synonym SymbolTable = "(string \<times> ResolvedValue) list"

record ResolutionResult =
  resolvedValue :: string
  isFullyResolved :: bool
  unresolvedParts :: "string list"

text \<open>
  The three shapes the builder constructs: \<^verbatim>\<open>{ type: "string", value }\<close>,
  \<^verbatim>\<open>{ type: "object", properties }\<close> and \<^verbatim>\<open>{ type: "unresolved" }\<close>.
\<close>

definition String :: "string \<Rightarrow> ResolvedValue" where
  "String s = ResolvedValue TString (Some s) None"

definition Object :: "(string \<times> ResolvedValue) list \<Rightarrow> ResolvedValue" where
  "Object ps = ResolvedValue TObject None (Some ps)"

definition Unresolved :: ResolvedValue where
  "Unresolved = ResolvedValue TUnresolved None None"

text \<open>
  \<^verbatim>\<open>ASTNode\<close> is the Babel syntax tree. The node types the resolver inspects are
  constructors with the fields the code reads; every other node type is \<open>OtherNode\<close>
  with its type name and its child nodes in key order. A template's \<^verbatim>\<open>quasis\<close> are
  given by their \<^verbatim>\<open>value.raw\<close> texts, an import's \<^verbatim>\<open>source\<close> by its
  \<^verbatim>\<open>value\<close>.
\<close>

datatype node =
    StringLiteral string
  | Identifier string
  | MemberExpression node node bool
  | ConditionalExpression node node node
  | TemplateLiteral "string list" "node list"
  | CallExpression node "node list"
  | TSAsExpression node
  | TSSatisfiesExpression node
  | ObjectExpression "node list"
  | ObjectProperty node node
  | VariableDeclaration "node list"
  | VariableDeclarator node "node option"
  | ImportDeclaration "node list" string
  | ImportSpecifier node node
  | ImportDefaultSpecifier node
  | ImportNamespaceSpecifier node
  | ExportNamedDeclaration "node option" "node list"
  | OtherNode string "node list"

section \<open>JavaScript helpers\<close>

text \<open>Truthiness of a possibly undefined string: undefined and the empty string are falsy.\<close>

fun truthy :: "string option \<Rightarrow> bool" where
  "truthy None = False"
| "truthy (Some s) = (s \<noteq> [])"

text \<open>\<^verbatim>\<open>Array.prototype.join\<close>.\<close>

fun join :: "string \<Rightarrow> string list \<Rightarrow> string" where
  "join sep [] = []"
| "join sep [x] = x"
| "join sep (x # y # ys) = x @ sep @ join sep (y # ys)"

text \<open>The \<^verbatim>\<open>name\<close> field of a node: only identifiers have one.\<close>

fun name_field :: "node \<Rightarrow> string option" where
  "name_field (Identifier n) = Some n"
| "name_field _ = None"

text \<open>A possibly undefined string interpolated into a template string.\<close>

fun template_string :: "string option \<Rightarrow> string" where
  "template_string None = ''undefined''"
| "template_string (Some s) = s"

section \<open>Expression resolver (src/resolver/expression-resolver.ts)\<close>

definition STRING_PASSTHROUGH_METHODS :: "string list" where
  "STRING_PASSTHROUGH_METHODS =
     [''trim'', ''trimStart'', ''trimEnd'', ''trimLeft'', ''trimRight'', ''replace'',
      ''replaceAll'', ''normalize'', ''toLowerCase'', ''toUpperCase'']"

fun stringifyExpr :: "node \<Rightarrow> string" where
  "stringifyExpr (Identifier name) = name"
| "stringifyExpr (MemberExpression object property computed) =
     stringifyExpr object @
       (if computed then ''['' @ stringifyExpr property @ '']''
        else ''.'' @ template_string (name_field property))"
| "stringifyExpr (StringLiteral v) = [CHR 0x22] @ v @ [CHR 0x22]"
| "stringifyExpr _ = ''<expr>''"

text \<open>The result every unresolved branch returns.\<close>

definition unresolved_result :: "node \<Rightarrow> ResolutionResult" where
  "unresolved_result expr =
     \<lparr>resolvedValue = [], isFullyResolved = False, unresolvedParts = [stringifyExpr expr]\<rparr>"

lemma size_prop_less:
  "x \<in> set ps \<Longrightarrow> size (snd x) < size (ResolvedValue t v (Some ps))"
  by (induction ps) auto

text \<open>\<^verbatim>\<open>collectAllStrings(value, result)\<close> pushes onto \<open>result\<close>; the model returns it.\<close>

function collectAllStrings :: "ResolvedValue \<Rightarrow> string list \<Rightarrow> string list" where
  "collectAllStrings v result =
     (if rtype v = TString \<and> truthy (rvalue v) then result @ [the (rvalue v)]
      else if rtype v = TObject \<and> properties v \<noteq> None then
        fold (\<lambda>kv acc. collectAllStrings (snd kv) acc) (the (properties v)) result
      else result)"
  by pat_completeness auto
termination
  apply (relation "measure (\<lambda>(v, r). size v)")
   apply simp
  subgoal for v result x xa
    by (cases v) (auto dest: size_prop_less)
  done

declare collectAllStrings.simps [simp del]

fun resolveMemberExpressionToValue :: "node \<Rightarrow> SymbolTable \<Rightarrow> ResolvedValue option" where
  "resolveMemberExpressionToValue (MemberExpression object property computed) symbols =
     (let current =
            (case object of
               Identifier name \<Rightarrow> map_of symbols name
             | MemberExpression obj' prop' comp' \<Rightarrow>
                 resolveMemberExpressionToValue (MemberExpression obj' prop' comp') symbols
             | _ \<Rightarrow> None)
      in case current of
           None \<Rightarrow> None
         | Some cur \<Rightarrow>
             if rtype cur \<noteq> TObject \<or> properties cur = None then None
             else (case property of
                     Identifier pname \<Rightarrow> map_of (the (properties cur)) pname
                   | _ \<Rightarrow> None))"
| "resolveMemberExpressionToValue _ symbols = None"

declare resolveMemberExpressionToValue.simps [simp del]

text \<open>
  The root object of a member expression, lines 104 to 129: \<open>Inr\<close> the value of
  \<^verbatim>\<open>current\<close> (possibly undefined), \<open>Inl ()\<close> the two early returns.
\<close>

definition rootObject :: "node \<Rightarrow> SymbolTable \<Rightarrow> unit + ResolvedValue option" where
  "rootObject object symbols =
     (case object of
        Identifier name \<Rightarrow> Inr (map_of symbols name)
      | MemberExpression obj' prop' comp' \<Rightarrow>
          (case resolveMemberExpressionToValue object symbols of
             Some nestedResult \<Rightarrow> Inr (Some nestedResult)
           | None \<Rightarrow> Inl ())
      | _ \<Rightarrow> Inl ())"

text \<open>The loop of lines 141 to 150 over the properties of \<^verbatim>\<open>current\<close>.\<close>

definition unionAllValues :: "(string \<times> ResolvedValue) list \<Rightarrow> string list" where
  "unionAllValues props =
     fold (\<lambda>kv allValues.
             let v = snd kv in
             if rtype v = TString \<and> truthy (rvalue v) then allValues @ [the (rvalue v)]
             else if rtype v = TObject then collectAllStrings v allValues
             else allValues) props []"

definition resolveMemberExpression :: "node \<Rightarrow> SymbolTable \<Rightarrow> ResolutionResult" where
  "resolveMemberExpression expr symbols =
     (case expr of
        MemberExpression object property isComputed \<Rightarrow>
          (case rootObject object symbols of
             Inl _ \<Rightarrow> unresolved_result expr
           | Inr None \<Rightarrow> unresolved_result expr
           | Inr (Some current) \<Rightarrow>
               if rtype current = TUnresolved then unresolved_result expr
               else if isComputed \<and> rtype current = TObject \<and> properties current \<noteq> None then
                 \<lparr>resolvedValue = join '' '' (unionAllValues (the (properties current))),
                  isFullyResolved = True, unresolvedParts = []\<rparr>
               else if name_field property \<noteq> None \<and> rtype current = TObject
                       \<and> properties current \<noteq> None then
                 (case map_of (the (properties current)) (the (name_field property)) of
                    Some propValue \<Rightarrow>
                      if rtype propValue = TString \<and> rvalue propValue \<noteq> None then
                        \<lparr>resolvedValue = the (rvalue propValue),
                         isFullyResolved = True, unresolvedParts = []\<rparr>
                      else unresolved_result expr
                  | None \<Rightarrow> unresolved_result expr)
               else unresolved_result expr)
      | _ \<Rightarrow> unresolved_result expr)"

text \<open>
  \<^verbatim>\<open>resolveExpression\<close>, \<^verbatim>\<open>resolveTemplateLiteral\<close> and
  \<^verbatim>\<open>resolveCallExpression\<close> call each other. The \<^verbatim>\<open>for\<close> loop of
  \<^verbatim>\<open>resolveTemplateLiteral\<close> is \<open>templateLoop\<close>: its first two arguments are
  \<^verbatim>\<open>quasis\<close> and \<^verbatim>\<open>expressions\<close> from index \<open>i\<close> on, its state is
  \<^verbatim>\<open>(parts, unresolvedParts, allResolved)\<close>. The \<^verbatim>\<open>imports\<close> argument is
  only passed along by the source and is left out.
\<close>

function (sequential)
  resolveExpression :: "node \<Rightarrow> SymbolTable \<Rightarrow> ResolutionResult" and
  resolveTemplateLiteral :: "node \<Rightarrow> SymbolTable \<Rightarrow> ResolutionResult" and
  templateLoop :: "string list \<Rightarrow> node list \<Rightarrow> SymbolTable
                   \<Rightarrow> string list \<times> string list \<times> bool \<Rightarrow> string list \<times> string list \<times> bool" and
  resolveCallExpression :: "node \<Rightarrow> SymbolTable \<Rightarrow> ResolutionResult"
where
  "resolveExpression (StringLiteral v) symbols =
     \<lparr>resolvedValue = v, isFullyResolved = True, unresolvedParts = []\<rparr>"
| "resolveExpression (Identifier name) symbols =
     (case map_of symbols name of
        Some resolved \<Rightarrow>
          if rtype resolved = TString \<and> rvalue resolved \<noteq> None then
            \<lparr>resolvedValue = the (rvalue resolved), isFullyResolved = True, unresolvedParts = []\<rparr>
          else \<lparr>resolvedValue = [], isFullyResolved = False, unresolvedParts = [name]\<rparr>
      | None \<Rightarrow> \<lparr>resolvedValue = [], isFullyResolved = False, unresolvedParts = [name]\<rparr>)"
| "resolveExpression (MemberExpression object property computed) symbols =
     resolveMemberExpression (MemberExpression object property computed) symbols"
| "resolveExpression (ConditionalExpression test consequent alternate) symbols =
     (let c = resolveExpression consequent symbols;
          a = resolveExpression alternate symbols;
          combinedValue = join '' '' (filter (\<lambda>s. s \<noteq> []) [resolvedValue c, resolvedValue a])
      in \<lparr>resolvedValue = combinedValue,
          isFullyResolved = (isFullyResolved c \<and> isFullyResolved a),
          unresolvedParts = unresolvedParts c @ unresolvedParts a\<rparr>)"
| "resolveExpression (TemplateLiteral quasis expressions) symbols =
     resolveTemplateLiteral (TemplateLiteral quasis expressions) symbols"
| "resolveExpression (CallExpression callee arguments) symbols =
     resolveCallExpression (CallExpression callee arguments) symbols"
| "resolveExpression expr symbols = unresolved_result expr"
| "resolveTemplateLiteral (TemplateLiteral quasis expressions) symbols =
     (case templateLoop quasis expressions symbols ([], [], True) of
        (parts, unresolved, allResolved) \<Rightarrow>
          \<lparr>resolvedValue = join [] parts, isFullyResolved = allResolved,
           unresolvedParts = unresolved\<rparr>)"
| "resolveTemplateLiteral expr symbols = unresolved_result expr"
| "templateLoop [] expressions symbols st = st"
| "templateLoop (q # quasis) [] symbols (parts, unresolved, allResolved) =
     templateLoop quasis [] symbols (parts @ [q], unresolved, allResolved)"
| "templateLoop (q # quasis) (e # expressions) symbols (parts, unresolved, allResolved) =
     (let exprResult = resolveExpression e symbols;
          parts' = parts @ [q] @ [resolvedValue exprResult]
      in if \<not> isFullyResolved exprResult then
           templateLoop quasis expressions symbols
             (parts', unresolved @ unresolvedParts exprResult, False)
         else templateLoop quasis expressions symbols (parts', unresolved, allResolved))"
| "resolveCallExpression (CallExpression callee arguments) symbols =
     (case callee of
        MemberExpression object property computed \<Rightarrow>
          (let methodName = name_field property in
           if truthy methodName \<and> the methodName \<in> set STRING_PASSTHROUGH_METHODS then
             resolveExpression object symbols
           else unresolved_result (CallExpression callee arguments))
      | _ \<Rightarrow> unresolved_result (CallExpression callee arguments))"
| "resolveCallExpression expr symbols = unresolved_result expr"
  by pat_completeness auto
termination
  by (relation "inv_image (less_than <*lex*> less_than)
        (\<lambda>x. case x of
           Inl (Inl (e, s)) \<Rightarrow> (2 * size e + 2, 0)
         | Inl (Inr (e, s)) \<Rightarrow> (2 * size e + 1, 0)
         | Inr (Inl (qs, es, s, st)) \<Rightarrow> (2 * size_list size es + 1, length qs)
         | Inr (Inr (e, s)) \<Rightarrow> (2 * size e + 1, 0))") auto

section \<open>Symbol table builder (src/resolver/symbol-table.ts)\<close>

text \<open>
  The template loop of \<^verbatim>\<open>extractValue\<close>, lines 54 to 65, with state
  \<^verbatim>\<open>(parts, allResolved)\<close>.
\<close>

fun extractTemplateLoop ::
  "string list \<Rightarrow> node list \<Rightarrow> SymbolTable \<Rightarrow> string list \<times> bool \<Rightarrow> string list \<times> bool" where
  "extractTemplateLoop [] expressions symbols st = st"
| "extractTemplateLoop (q # quasis) [] symbols (parts, allResolved) =
     extractTemplateLoop quasis [] symbols (parts @ [q], allResolved)"
| "extractTemplateLoop (q # quasis) (e # expressions) symbols (parts, allResolved) =
     (let exprResult = resolveExpression e symbols in
      if isFullyResolved exprResult then
        extractTemplateLoop quasis expressions symbols
          (parts @ [q] @ [resolvedValue exprResult], allResolved)
      else extractTemplateLoop quasis expressions symbols (parts @ [q], False))"

text \<open>The name of an object literal's key, \<^verbatim>\<open>null\<close> for a key of another type.\<close>

fun keyName :: "node \<Rightarrow> string option" where
  "keyName (Identifier n) = Some n"
| "keyName (StringLiteral v) = Some v"
| "keyName _ = None"

fun extractValue :: "node \<Rightarrow> SymbolTable \<Rightarrow> ResolvedValue" where
  "extractValue (TSAsExpression expression) symbols = extractValue expression symbols"
| "extractValue (TSSatisfiesExpression expression) symbols = extractValue expression symbols"
| "extractValue (StringLiteral v) symbols = String v"
| "extractValue (TemplateLiteral quasis expressions) symbols =
     (if length expressions = 0 then String (join [] quasis)
      else (case extractTemplateLoop quasis expressions symbols ([], True) of
              (parts, allResolved) \<Rightarrow>
                if allResolved then String (join [] parts) else Unresolved))"
| "extractValue (ObjectExpression props) symbols =
     Object (fold (\<lambda>prop properties.
                     case prop of
                       ObjectProperty key val \<Rightarrow>
                         if truthy (keyName key) then
                           AList.update (the (keyName key)) (extractValue val symbols) properties
                         else properties
                     | _ \<Rightarrow> properties) props [])"
| "extractValue init symbols = Unresolved"

record PendingImport =
  localName :: string
  importedName :: string
  sourcePath :: string

text \<open>The loop over an import declaration's specifiers, lines 108 to 126.\<close>

definition queueImports :: "node list \<Rightarrow> string \<Rightarrow> PendingImport list \<Rightarrow> PendingImport list" where
  "queueImports specifiers source pendingImports =
     fold (\<lambda>spec pending.
             case spec of
               ImportSpecifier local imported \<Rightarrow>
                 if \<not> truthy (name_field local) then pending
                 else pending @
                   [\<lparr>localName = the (name_field local),
                     importedName = (if truthy (name_field imported) then the (name_field imported)
                                     else the (name_field local)),
                     sourcePath = source\<rparr>]
             | ImportDefaultSpecifier local \<Rightarrow>
                 if \<not> truthy (name_field local) then pending
                 else pending @
                   [\<lparr>localName = the (name_field local), importedName = ''default'',
                     sourcePath = source\<rparr>]
             | ImportNamespaceSpecifier local \<Rightarrow>
                 if \<not> truthy (name_field local) then pending
                 else pending @
                   [\<lparr>localName = the (name_field local), importedName = ''*'',
                     sourcePath = source\<rparr>]
             | _ \<Rightarrow> pending) specifiers pendingImports"

text \<open>The loop over a variable declaration's declarators, lines 132 to 143 and 151 to 162.\<close>

definition declareAll :: "node list \<Rightarrow> SymbolTable \<Rightarrow> SymbolTable" where
  "declareAll declarations symbols0 =
     fold (\<lambda>decl symbols.
             case decl of
               VariableDeclarator ident init \<Rightarrow>
                 (case (ident, init) of
                    (Identifier name, Some i) \<Rightarrow> AList.update name (extractValue i symbols) symbols
                  | _ \<Rightarrow> symbols)
             | _ \<Rightarrow> symbols) declarations symbols0"

text \<open>
  The child nodes \<^verbatim>\<open>Object.keys(node)\<close> leads to. Children that are not syntax
  nodes (locations, comments, the raw text of a template element) and type annotations have
  no \<^verbatim>\<open>type\<close> that \<^verbatim>\<open>visit\<close> tests and no declaration or import below
  them, and are left out. The order of the children matters only between children that bind
  names.
\<close>

fun children :: "node \<Rightarrow> node list" where
  "children (StringLiteral v) = []"
| "children (Identifier n) = []"
| "children (MemberExpression object property computed) = [object, property]"
| "children (ConditionalExpression test consequent alternate) = [test, consequent, alternate]"
| "children (TemplateLiteral quasis expressions) = expressions"
| "children (CallExpression callee arguments) = callee # arguments"
| "children (TSAsExpression expression) = [expression]"
| "children (TSSatisfiesExpression expression) = [expression]"
| "children (ObjectExpression props) = props"
| "children (ObjectProperty key val) = [key, val]"
| "children (VariableDeclaration declarations) = declarations"
| "children (VariableDeclarator ident init) = ident # (case init of None \<Rightarrow> [] | Some i \<Rightarrow> [i])"
| "children (ImportDeclaration specifiers source) = specifiers"
| "children (ImportSpecifier local imported) = [local, imported]"
| "children (ImportDefaultSpecifier local) = [local]"
| "children (ImportNamespaceSpecifier local) = [local]"
| "children (ExportNamedDeclaration declaration specifiers) =
     (case declaration of None \<Rightarrow> [] | Some d \<Rightarrow> [d]) @ specifiers"
| "children (OtherNode ty cs) = cs"

lemma size_member_le: "c \<in> set cs \<Longrightarrow> size c \<le> size_list size cs"
  by (induction cs) auto

lemma size_children: "c \<in> set (children n) \<Longrightarrow> size c < size n"
  by (cases n) (auto dest: size_member_le split: option.splits)

text \<open>What \<^verbatim>\<open>visit\<close> does at the node itself, lines 103 to 164.\<close>

definition visitOwn ::
  "node \<Rightarrow> SymbolTable \<times> PendingImport list \<Rightarrow> SymbolTable \<times> PendingImport list" where
  "visitOwn n st =
     (case n of
        ImportDeclaration specifiers source \<Rightarrow> (fst st, queueImports specifiers source (snd st))
      | VariableDeclaration declarations \<Rightarrow> (declareAll declarations (fst st), snd st)
      | ExportNamedDeclaration declaration specifiers \<Rightarrow>
          (case declaration of
             Some (VariableDeclaration declarations) \<Rightarrow> (declareAll declarations (fst st), snd st)
           | _ \<Rightarrow> st)
      | _ \<Rightarrow> st)"

function visit ::
  "node \<Rightarrow> SymbolTable \<times> PendingImport list \<Rightarrow> SymbolTable \<times> PendingImport list" where
  "visit n st = fold visit (children n) (visitOwn n st)"
  by pat_completeness auto
termination
  by (relation "measure (\<lambda>(n, st). size n)") (auto simp: size_children)

declare visit.simps [simp del]

section \<open>Import resolver (src/resolver/import-resolver.ts)\<close>

text \<open>
  What can throw inside the \<^verbatim>\<open>try\<close> block returns a sum, \<open>Inl\<close> the exception.
  The parser and the path functions are libraries outside the repository
  (\<^verbatim>\<open>@babel/parser\<close>, \<^verbatim>\<open>node:path\<close>) and are parameters, collected in \<open>Host\<close>.
  The module-level \<^verbatim>\<open>importCache\<close> is passed in and returned.
\<close>

datatype error = IOError | ParseError

record FileReader =
  exists :: "string \<Rightarrow> bool"
  read :: "string \<Rightarrow> error + string"

record Host =
  parse :: "string \<Rightarrow> error + node"
  dirname :: "string \<Rightarrow> string"
  resolve :: "string \<Rightarrow> string \<Rightarrow> string"

type_synonym ImportCache = "string \<rightharpoonup> SymbolTable"

definition clearImportCache :: "ImportCache \<Rightarrow> ImportCache" where
  "clearImportCache importCache = Map.empty"

definition getExportedValue :: "SymbolTable \<Rightarrow> string \<Rightarrow> ResolvedValue option" where
  "getExportedValue symbols exportName =
     (if exportName = ''*'' then
        Some (Object (fold (\<lambda>nv props.
                              if rtype (snd nv) \<noteq> TUnresolved then
                                AList.update (fst nv) (snd nv) props
                              else props) symbols []))
      else if exportName = ''default'' then map_of symbols ''default''
      else map_of symbols exportName)"

definition extensions :: "string list" where
  "extensions = [''.ts'', ''.tsx'', ''.js'', ''.jsx'']"

text \<open>The value of \<^verbatim>\<open>resolvedPath\<close> after the probes of lines 90 to 114.\<close>

definition locate :: "Host \<Rightarrow> FileReader \<Rightarrow> string \<Rightarrow> string \<Rightarrow> string" where
  "locate host reader currentPath importPath =
     (let currentDir = dirname host currentPath;
          p0 = resolve host currentDir importPath;
          p1 = (if \<not> exists reader p0 then
                  (case find (exists reader) (map (\<lambda>ext. p0 @ ext) extensions) of
                     Some withExt \<Rightarrow> withExt
                   | None \<Rightarrow> p0)
                else p0);
          p2 = (if \<not> exists reader p1 then
                  (case find (exists reader)
                          (map (\<lambda>ext. resolve host p1 (''index'' @ ext)) extensions) of
                     Some indexPath \<Rightarrow> indexPath
                   | None \<Rightarrow> p1)
                else p1)
      in p2)"

definition resolveImport ::
  "Host \<Rightarrow> string \<Rightarrow> string \<Rightarrow> string
     \<Rightarrow> (node \<Rightarrow> string \<Rightarrow> ImportCache \<Rightarrow> SymbolTable \<times> ImportCache)
     \<Rightarrow> FileReader \<Rightarrow> ImportCache \<Rightarrow> ResolvedValue option \<times> ImportCache" where
  "resolveImport host currentPath importPath exportName buildSymbolTableFn reader importCache =
     (let resolvedPath = locate host reader currentPath importPath in
      if \<not> exists reader resolvedPath then (None, importCache)
      else (case importCache resolvedPath of
              Some cachedSymbols \<Rightarrow> (getExportedValue cachedSymbols exportName, importCache)
            | None \<Rightarrow>
                (case read reader resolvedPath of
                   Inl err \<Rightarrow> (None, importCache)
                 | Inr content \<Rightarrow>
                     (case parse host content of
                        Inl err \<Rightarrow> (None, importCache)
                      | Inr importedAst \<Rightarrow>
                          (case buildSymbolTableFn importedAst resolvedPath importCache of
                             (importedSymbols, cache') \<Rightarrow>
                               (getExportedValue importedSymbols exportName,
                                cache'(resolvedPath \<mapsto> importedSymbols)))))))"

section \<open>buildSymbolTable\<close>

record BuildSymbolTableOptions =
  currentFilePath :: "string option"
  followImports :: "bool option"
  fileReader :: FileReader

text \<open>
  \<^verbatim>\<open>followImports\<close> defaults to true. The closure
  \<^verbatim>\<open>buildImportSymbolTable\<close> is written where it is passed to
  \<^verbatim>\<open>resolveImport\<close>, its only use. The recursion is accepted on the measure
  "imports are followed": the closure's call does not follow them.
\<close>

function buildSymbolTable ::
  "Host \<Rightarrow> node \<Rightarrow> BuildSymbolTableOptions \<Rightarrow> ImportCache \<Rightarrow> SymbolTable \<times> ImportCache" where
  "buildSymbolTable host ast options importCache =
     (case visit ast ([], []) of
        (symbols0, pendingImports) \<Rightarrow>
          fold (\<lambda>imp (symbols, cache).
                  if \<not> truthy (currentFilePath options)
                     \<or> \<not> (case followImports options of None \<Rightarrow> True | Some b \<Rightarrow> b) then
                    (AList.update (localName imp) Unresolved symbols, cache)
                  else
                    (case resolveImport host (the (currentFilePath options)) (sourcePath imp)
                            (importedName imp)
                            (\<lambda>importAst filePath c.
                               buildSymbolTable host importAst
                                 \<lparr>currentFilePath = Some filePath, followImports = Some False,
                                  fileReader = fileReader options\<rparr> c)
                            (fileReader options) cache of
                       (Some rv, cache') \<Rightarrow> (AList.update (localName imp) rv symbols, cache')
                     | (None, cache') \<Rightarrow>
                         (AList.update (localName imp) Unresolved symbols, cache')))
               pendingImports (symbols0, importCache))"
  by pat_completeness auto
termination
  by (relation "measure (\<lambda>(host, ast, options, c).
           if truthy (currentFilePath options)
              \<and> (case followImports options of None \<Rightarrow> True | Some b \<Rightarrow> b) then 1 else 0)")
     auto

declare buildSymbolTable.simps [simp del]

text \<open>
  The body of the loop over \<^verbatim>\<open>pendingImports\<close>, lines 200 to 221, on its own:
  \<^verbatim>\<open>buildSymbolTable\<close> folds it over the queued imports (lemma
  \<open>buildSymbolTable_steps\<close>).
\<close>

definition importStep ::
  "Host \<Rightarrow> BuildSymbolTableOptions \<Rightarrow> PendingImport \<Rightarrow> SymbolTable \<times> ImportCache
     \<Rightarrow> SymbolTable \<times> ImportCache" where
  "importStep host options imp st =
     (case st of
        (symbols, cache) \<Rightarrow>
          if \<not> truthy (currentFilePath options)
             \<or> \<not> (case followImports options of None \<Rightarrow> True | Some b \<Rightarrow> b) then
            (AList.update (localName imp) Unresolved symbols, cache)
          else
            (case resolveImport host (the (currentFilePath options)) (sourcePath imp)
                    (importedName imp)
                    (\<lambda>importAst filePath c.
                       buildSymbolTable host importAst
                         \<lparr>currentFilePath = Some filePath, followImports = Some False,
                          fileReader = fileReader options\<rparr> c)
                    (fileReader options) cache of
               (Some rv, cache') \<Rightarrow> (AList.update (localName imp) rv symbols, cache')
             | (None, cache') \<Rightarrow> (AList.update (localName imp) Unresolved symbols, cache')))"

section \<open>Notions of the specification\<close>

text \<open>
  Every String leaf of a value, at any nesting depth, in iteration order; an Object leaf
  contributes only what lies below it.
\<close>

function stringLeaves :: "ResolvedValue \<Rightarrow> string list" where
  "stringLeaves v =
     (case rtype v of
        TString \<Rightarrow> (case rvalue v of Some s \<Rightarrow> [s] | None \<Rightarrow> [])
      | TObject \<Rightarrow>
          (case properties v of
             Some ps \<Rightarrow> concat (map (\<lambda>kv. stringLeaves (snd kv)) ps)
           | None \<Rightarrow> [])
      | TUnresolved \<Rightarrow> [])"
  by pat_completeness auto
termination
  apply (relation "measure size")
   apply simp
  subgoal for v ps kv
    by (cases v) (auto dest: size_prop_less)
  done

declare stringLeaves.simps [simp del]

definition nonEmpty :: "string list \<Rightarrow> string list" where
  "nonEmpty xs = filter (\<lambda>s. s \<noteq> []) xs"

text \<open>
  The properties that computed access drops: Unresolved ones and String leaves with empty
  text. \<open>prune\<close> removes them at every depth.
\<close>

definition dropped :: "ResolvedValue \<Rightarrow> bool" where
  "dropped v = (rtype v = TUnresolved \<or> (rtype v = TString \<and> rvalue v = Some []))"

function prune :: "ResolvedValue \<Rightarrow> ResolvedValue" where
  "prune v =
     (if rtype v = TObject then
        (case properties v of
           Some ps \<Rightarrow>
             ResolvedValue TObject (rvalue v)
               (Some (map (\<lambda>kv. (fst kv, prune (snd kv)))
                          (filter (\<lambda>kv. \<not> dropped (snd kv)) ps)))
         | None \<Rightarrow> v)
      else v)"
  by pat_completeness auto
termination
  apply (relation "measure size")
   apply simp
  subgoal for v ps kv
    by (cases v) (auto dest: size_prop_less)
  done

declare prune.simps [simp del]

text \<open>
  The text of a template with literal parts \<open>L0 .. Ln\<close> and the texts \<open>t0 .. t(n-1)\<close>
  of its embedded expressions: \<open>L0 + t0 + L1 + ... + Ln\<close>.
\<close>

fun interleave :: "string list \<Rightarrow> string list \<Rightarrow> string" where
  "interleave (q # qs) (t # ts) = q @ t @ interleave qs ts"
| "interleave qs [] = concat qs"
| "interleave [] ts = []"

text \<open>
  The declaration sites of a tree. \<open>subnodes\<close> lists a node and every node below it, at
  any depth; \<open>declaredNames\<close> are the names of the declarators with an identifier and an
  initializer in the variable declarations among them, \<open>importedLocals\<close> the local names
  of the import specifiers among them.
\<close>

function subnodes :: "node \<Rightarrow> node list" where
  "subnodes n = n # concat (map subnodes (children n))"
  by pat_completeness auto
termination
  by (relation "measure size") (auto simp: size_children)

declare subnodes.simps [simp del]

definition declaredIn :: "node list \<Rightarrow> string list" where
  "declaredIn declarations =
     concat (map (\<lambda>decl. case decl of
                           VariableDeclarator (Identifier name) (Some i) \<Rightarrow> [name]
                         | _ \<Rightarrow> []) declarations)"

definition declaredNames :: "node \<Rightarrow> string list" where
  "declaredNames ast =
     concat (map (\<lambda>n. case n of VariableDeclaration declarations \<Rightarrow> declaredIn declarations
                        | _ \<Rightarrow> []) (subnodes ast))"

fun specifierLocal :: "node \<Rightarrow> string list" where
  "specifierLocal (ImportSpecifier (Identifier l) imported) = (if l = [] then [] else [l])"
| "specifierLocal (ImportDefaultSpecifier (Identifier l)) = (if l = [] then [] else [l])"
| "specifierLocal (ImportNamespaceSpecifier (Identifier l)) = (if l = [] then [] else [l])"
| "specifierLocal _ = []"

definition importedLocals :: "node \<Rightarrow> string list" where
  "importedLocals ast =
     concat (map (\<lambda>n. case n of
                        ImportDeclaration specifiers source \<Rightarrow>
                          concat (map specifierLocal specifiers)
                      | _ \<Rightarrow> []) (subnodes ast))"

text \<open>What one node contributes to \<open>declaredNames\<close> and to \<open>importedLocals\<close>.\<close>

definition ownDeclared :: "node \<Rightarrow> string list" where
  "ownDeclared n = (case n of VariableDeclaration ds \<Rightarrow> declaredIn ds | _ \<Rightarrow> [])"

definition ownImported :: "node \<Rightarrow> string list" where
  "ownImported n = (case n of ImportDeclaration specs src \<Rightarrow> concat (map specifierLocal specs)
                      | _ \<Rightarrow> [])"


text \<open>
  The invariant of the import cache within a run over an unchanged file system: every
  cached table is what \<^verbatim>\<open>resolveImport\<close> builds from the file at that path. It holds
  for the cleared cache and \<^verbatim>\<open>buildSymbolTable\<close> keeps it.
\<close>

definition cacheValid :: "Host \<Rightarrow> FileReader \<Rightarrow> ImportCache \<Rightarrow> bool" where
  "cacheValid host reader cache =
     (\<forall>path T. cache path = Some T \<longrightarrow>
        (\<exists>content importedAst.
           read reader path = Inr content \<and> parse host content = Inr importedAst
           \<and> T = fst (buildSymbolTable host importedAst
                        \<lparr>currentFilePath = Some path, followImports = Some False,
                         fileReader = reader\<rparr> Map.empty)))"

section \<open>Fixtures\<close>

text \<open>
  The mock file reader of tests/resolver/symbol-table.test.ts, a host whose parser is a
  table from file contents to syntax trees, and the trees of some small files.
\<close>

definition createMockFileReader :: "(string \<times> string) list \<Rightarrow> FileReader" where
  "createMockFileReader files =
     \<lparr>exists = (\<lambda>path. map_of files path \<noteq> None),
      read = (\<lambda>path. case map_of files path of Some content \<Rightarrow> Inr content
                       | None \<Rightarrow> Inl IOError)\<rparr>"

definition mockHost :: "(string \<times> node) list \<Rightarrow> Host" where
  "mockHost sources =
     \<lparr>parse = (\<lambda>content. case map_of sources content of Some ast \<Rightarrow> Inr ast
                          | None \<Rightarrow> Inl ParseError),
      dirname = (\<lambda>path. ''/project''),
      resolve = (\<lambda>dir path. dir @ ''/'' @ (if take 2 path = ''./'' then drop 2 path else path))\<rparr>"

definition importOf :: "node \<Rightarrow> string \<Rightarrow> node" where
  "importOf specifier source =
     OtherNode ''File'' [OtherNode ''Program'' [ImportDeclaration [specifier] source]]"

definition exportConst :: "string \<Rightarrow> string \<Rightarrow> node" where
  "exportConst name text =
     OtherNode ''File'' [OtherNode ''Program''
       [ExportNamedDeclaration
          (Some (VariableDeclaration
                   [VariableDeclarator (Identifier name) (Some (StringLiteral text))])) []]]"

definition exportDefault :: "string \<Rightarrow> node" where
  "exportDefault text =
     OtherNode ''File'' [OtherNode ''Program''
       [OtherNode ''ExportDefaultDeclaration'' [StringLiteral text]]]"

definition lockedReader :: FileReader where
  "lockedReader = \<lparr>exists = (\<lambda>path. path = ''/project/locked.ts''), read = (\<lambda>path. Inl IOError)\<rparr>"

definition nestedAst :: node where
  "nestedAst =
     OtherNode ''File'' [OtherNode ''Program''
       [OtherNode ''FunctionDeclaration''
          [Identifier ''Button'',
           OtherNode ''BlockStatement''
             [VariableDeclaration
                [VariableDeclarator (Identifier ''x'') (Some (StringLiteral ''a''))]]]]]"

definition cycleA :: node where
  "cycleA =
     OtherNode ''File'' [OtherNode ''Program''
       [ImportDeclaration [ImportSpecifier (Identifier ''b'') (Identifier ''b'')] ''./b'',
        ExportNamedDeclaration
          (Some (VariableDeclaration
                   [VariableDeclarator (Identifier ''a'') (Some (StringLiteral ''from-a''))])) []]]"

definition cycleB :: node where
  "cycleB =
     OtherNode ''File'' [OtherNode ''Program''
       [ImportDeclaration [ImportSpecifier (Identifier ''a'') (Identifier ''a'')] ''./a'',
        ExportNamedDeclaration
          (Some (VariableDeclaration
                   [VariableDeclarator (Identifier ''b'') (Some (StringLiteral ''from-b''))])) []]]"

definition cycleHost :: Host where
  "cycleHost = mockHost [(''source of a'', cycleA), (''source of b'', cycleB)]"

definition cycleFiles :: FileReader where
  "cycleFiles = createMockFileReader
     [(''/project/a.ts'', ''source of a''), (''/project/b.ts'', ''source of b'')]"


definition twoDefaultImports :: node where
  "twoDefaultImports =
     OtherNode ''File'' [OtherNode ''Program''
       [ImportDeclaration [ImportDefaultSpecifier (Identifier ''tokens'')] ''./tokens'',
        ImportDeclaration [ImportDefaultSpecifier (Identifier ''other'')] ''./tokens'']]"

section \<open>The verdict of a resolution\<close>

lemma resolveMemberExpression_verdict:
  "isFullyResolved (resolveMemberExpression e s) = (unresolvedParts (resolveMemberExpression e s) = [])"
  by (simp add: resolveMemberExpression_def unresolved_result_def
           split: node.splits sum.splits option.splits)

lemma resolve_verdict_all:
  "isFullyResolved (resolveExpression e s) = (unresolvedParts (resolveExpression e s) = [])"
  "isFullyResolved (resolveTemplateLiteral e2 s2) = (unresolvedParts (resolveTemplateLiteral e2 s2) = [])"
  "snd (snd st) = (fst (snd st) = []) \<Longrightarrow>
     snd (snd (templateLoop qs es s3 st)) = (fst (snd (templateLoop qs es s3 st)) = [])"
  "isFullyResolved (resolveCallExpression e4 s4) = (unresolvedParts (resolveCallExpression e4 s4) = [])"
proof (induction e s and e2 s2 and qs es s3 st and e4 s4
       rule: resolveExpression_resolveTemplateLiteral_templateLoop_resolveCallExpression.induct)
  case (8 quasis expressions symbols)
  then show ?case
    by (auto split: prod.splits)
qed (auto simp: resolveMemberExpression_verdict Let_def unresolved_result_def
          split: option.splits node.splits)

text \<open>
  C1. For every expression node and every symbol table, the result of
  \<^verbatim>\<open>resolveExpression\<close> has \<^verbatim>\<open>isFullyResolved\<close> false if and only if
  \<^verbatim>\<open>unresolvedParts\<close> is not empty: in every case, nested conditionals, templates,
  member accesses and calls included.
\<close>

theorem resolveExpression_verdict_iff_fragments:
  "(isFullyResolved (resolveExpression expr symbols) = False)
     = (unresolvedParts (resolveExpression expr symbols) \<noteq> [])"
  using resolve_verdict_all(1) [of expr symbols] by simp

section \<open>Computed property access\<close>

lemma fold_collect:
  assumes "\<And>kv acc. kv \<in> set ps \<Longrightarrow> collectAllStrings (snd kv) acc = acc @ nonEmpty (stringLeaves (snd kv))"
  shows "fold (\<lambda>kv acc. collectAllStrings (snd kv) acc) ps acc
           = acc @ nonEmpty (concat (map (\<lambda>kv. stringLeaves (snd kv)) ps))"
  using assms by (induction ps arbitrary: acc) (auto simp: nonEmpty_def)

lemma collectAllStrings_leaves:
  "collectAllStrings v acc = acc @ nonEmpty (stringLeaves v)"
proof (induction v acc rule: collectAllStrings.induct)
  case (1 v result)
  show ?case
  proof (cases "rtype v")
    case TString
    then show ?thesis
      by (cases "rvalue v")
         (auto simp: collectAllStrings.simps[of v] stringLeaves.simps[of v] nonEmpty_def)
  next
    case TObject
    show ?thesis
    proof (cases "properties v")
      case None
      with TObject show ?thesis
        by (simp add: collectAllStrings.simps[of v] stringLeaves.simps[of v] nonEmpty_def)
    next
      case (Some ps)
      have "fold (\<lambda>kv acc. collectAllStrings (snd kv) acc) ps result
              = result @ nonEmpty (concat (map (\<lambda>kv. stringLeaves (snd kv)) ps))"
        by (rule fold_collect) (use 1 TObject Some in auto)
      with TObject Some show ?thesis
        by (simp add: collectAllStrings.simps[of v] stringLeaves.simps[of v])
    qed
  next
    case TUnresolved
    then show ?thesis
      by (simp add: collectAllStrings.simps[of v] stringLeaves.simps[of v] nonEmpty_def)
  qed
qed

lemma unionAllValues_fold:
  "fold (\<lambda>kv allValues.
             let v = snd kv in
             if rtype v = TString \<and> truthy (rvalue v) then allValues @ [the (rvalue v)]
             else if rtype v = TObject then collectAllStrings v allValues
             else allValues) ps acc
     = acc @ nonEmpty (concat (map (\<lambda>kv. stringLeaves (snd kv)) ps))"
proof (induction ps arbitrary: acc)
  case Nil
  then show ?case by (simp add: nonEmpty_def)
next
  case (Cons kv ps)
  have step: "(let v = snd kv in
             if rtype v = TString \<and> truthy (rvalue v) then acc @ [the (rvalue v)]
             else if rtype v = TObject then collectAllStrings v acc
             else acc) = acc @ nonEmpty (stringLeaves (snd kv))"
    by (cases "rtype (snd kv)"; cases "rvalue (snd kv)")
       (auto simp: collectAllStrings_leaves stringLeaves.simps[of "snd kv"] nonEmpty_def)
  show ?case
    by (simp only: fold_Cons comp_apply step Cons.IH) (simp add: nonEmpty_def)
qed

lemma unionAllValues_leaves:
  "rtype cur = TObject \<Longrightarrow> properties cur = Some ps \<Longrightarrow>
     unionAllValues ps = nonEmpty (stringLeaves cur)"
  by (simp add: unionAllValues_def unionAllValues_fold stringLeaves.simps[of cur])

lemma computed_access:
  assumes "rootObject object symbols = Inr (Some cur)"
    and "rtype cur = TObject" and "properties cur = Some ps"
  shows "resolveExpression (MemberExpression object property True) symbols
           = \<lparr>resolvedValue = join '' '' (unionAllValues ps),
              isFullyResolved = True, unresolvedParts = []\<rparr>"
  using assms by (simp add: resolveMemberExpression_def)

text \<open>
  C2, as the text states it, fails on an object with an empty String leaf: the code joins
  \<^verbatim>\<open>"x"\<close> only, the space-joined concatenation of every String leaf is
  \<^verbatim>\<open>" x"\<close>.
\<close>

theorem computed_access_every_leaf_counterexample:
  "resolvedValue (resolveExpression (MemberExpression (Identifier ''v'') (Identifier ''k'') True)
      [(''v'', Object [(''a'', String []), (''b'', String ''x'')])]) = ''x''
   \<and> join '' '' (stringLeaves (Object [(''a'', String []), (''b'', String ''x'')])) = '' x''"
  by (simp add: resolveMemberExpression_def rootObject_def Object_def String_def
        stringLeaves.simps unionAllValues_def collectAllStrings.simps)

text \<open>
  C2, amended. For every computed property access whose base resolves to an Object value,
  \<^verbatim>\<open>resolveExpression\<close> returns the space-joined concatenation of every non-empty
  String leaf reachable at any nesting depth of that object, in iteration order, as fully
  resolved and with no unresolved part, whatever the index expression is.
\<close>

theorem computed_access_flattens:
  assumes "rootObject object symbols = Inr (Some cur)"
    and "rtype cur = TObject" and "properties cur = Some ps"
  shows "resolveExpression (MemberExpression object property True) symbols
           = \<lparr>resolvedValue = join '' '' (nonEmpty (stringLeaves cur)),
              isFullyResolved = True, unresolvedParts = []\<rparr>"
  using computed_access[OF assms] unionAllValues_leaves[OF assms(2,3)] by simp

theorem computed_access_flattens_witness:
  "resolveExpression (MemberExpression (Identifier ''variants'') (Identifier ''size'') True)
     [(''variants'',
       Object [(''primary'', String ''bg-blue-500''),
               (''sizes'', Object [(''sm'', String ''text-sm''), (''lg'', String ''text-lg'')])])]
   = \<lparr>resolvedValue = ''bg-blue-500 text-sm text-lg'', isFullyResolved = True,
      unresolvedParts = []\<rparr>"
  using computed_access_flattens
    [of "Identifier ''variants''"
        "[(''variants'',
           Object [(''primary'', String ''bg-blue-500''),
                   (''sizes'', Object [(''sm'', String ''text-sm''), (''lg'', String ''text-lg'')])])]"
        "Object [(''primary'', String ''bg-blue-500''),
                 (''sizes'', Object [(''sm'', String ''text-sm''), (''lg'', String ''text-lg'')])]"
        "[(''primary'', String ''bg-blue-500''),
          (''sizes'', Object [(''sm'', String ''text-sm''), (''lg'', String ''text-lg'')])]"
        "Identifier ''size''"]
  by (simp add: rootObject_def Object_def String_def stringLeaves.simps nonEmpty_def)

lemma nonEmpty_append [simp]: "nonEmpty (xs @ ys) = nonEmpty xs @ nonEmpty ys"
  by (simp add: nonEmpty_def)

lemma nonEmpty_Nil [simp]: "nonEmpty [] = []"
  by (simp add: nonEmpty_def)

lemma nonEmpty_concat_dropped:
  "nonEmpty (concat (map (\<lambda>kv. stringLeaves (snd kv)) (filter (\<lambda>kv. \<not> dropped (snd kv)) ps)))
     = nonEmpty (concat (map (\<lambda>kv. stringLeaves (snd kv)) ps))"
proof (induction ps)
  case Nil
  show ?case by simp
next
  case (Cons kv ps)
  have "dropped (snd kv) \<Longrightarrow> nonEmpty (stringLeaves (snd kv)) = []"
    by (auto simp: dropped_def stringLeaves.simps[of "snd kv"] nonEmpty_def)
  with Cons show ?case by auto
qed

lemma stringLeaves_prune:
  "\<not> dropped v \<Longrightarrow> stringLeaves (prune v) = nonEmpty (stringLeaves v)"
proof (induction v rule: prune.induct)
  case (1 v)
  show ?case
  proof (cases "rtype v = TObject")
    case False
    with 1(2) show ?thesis
      by (cases "rtype v"; cases "rvalue v")
         (auto simp: prune.simps[of v] stringLeaves.simps[of v] dropped_def nonEmpty_def)
  next
    case True
    show ?thesis
    proof (cases "properties v")
      case None
      with True show ?thesis
        by (simp add: prune.simps[of v] stringLeaves.simps[of v] nonEmpty_def)
    next
      case (Some ps)
      have ih: "\<And>kv. kv \<in> set (filter (\<lambda>kv. \<not> dropped (snd kv)) ps)
                  \<Longrightarrow> stringLeaves (prune (snd kv)) = nonEmpty (stringLeaves (snd kv))"
        using 1(1)[OF True Some] by simp
      have conc: "\<And>xs. nonEmpty (concat (map (\<lambda>kv. stringLeaves (snd kv)) xs))
                    = concat (map (\<lambda>kv. nonEmpty (stringLeaves (snd kv))) xs)"
        subgoal for xs by (induction xs) auto
        done
      have "stringLeaves (prune v)
              = concat (map (\<lambda>kv. stringLeaves (prune (snd kv)))
                            (filter (\<lambda>kv. \<not> dropped (snd kv)) ps))"
        using True Some
        by (subst prune.simps, subst stringLeaves.simps) (simp add: comp_def)
      also have "\<dots> = concat (map (\<lambda>kv. nonEmpty (stringLeaves (snd kv)))
                            (filter (\<lambda>kv. \<not> dropped (snd kv)) ps))"
        using ih by (auto intro!: arg_cong[where f=concat])
      also have "\<dots> = nonEmpty (concat (map (\<lambda>kv. stringLeaves (snd kv)) ps))"
        by (simp only: conc[symmetric] nonEmpty_concat_dropped)
      finally show ?thesis
        using True Some by (simp add: stringLeaves.simps[of v])
    qed
  qed
qed

text \<open>
  C10. In computed property access on an Object value, the properties that are Unresolved and
  the String leaves with empty text are dropped from the flattened union, at every depth,
  and the verdict stays fully resolved with no unresolved part. When every property of the
  object is Unresolved the text is empty.
\<close>

theorem computed_access_drops:
  assumes "rootObject object symbols = Inr (Some cur)"
    and "rtype cur = TObject" and "properties cur = Some ps"
  shows "resolveExpression (MemberExpression object property True) symbols
           = \<lparr>resolvedValue = join '' '' (stringLeaves (prune cur)),
              isFullyResolved = True, unresolvedParts = []\<rparr>
         \<and> ((\<forall>kv \<in> set ps. snd kv = Unresolved) \<longrightarrow>
              resolveExpression (MemberExpression object property True) symbols
                = \<lparr>resolvedValue = [], isFullyResolved = True, unresolvedParts = []\<rparr>)"
proof -
  have nd: "\<not> dropped cur" using assms(2) by (simp add: dropped_def)
  have main: "resolveExpression (MemberExpression object property True) symbols
           = \<lparr>resolvedValue = join '' '' (stringLeaves (prune cur)),
              isFullyResolved = True, unresolvedParts = []\<rparr>"
    using computed_access[OF assms] unionAllValues_leaves[OF assms(2,3)] stringLeaves_prune[OF nd]
    by simp
  have "filter (\<lambda>kv. \<not> dropped (snd kv)) ps = []" if "\<forall>kv \<in> set ps. snd kv = Unresolved"
    using that by (auto simp: filter_empty_conv dropped_def Unresolved_def)
  then have "stringLeaves (prune cur) = []" if "\<forall>kv \<in> set ps. snd kv = Unresolved"
    using that assms(2,3)
    by (subst prune.simps, subst stringLeaves.simps) simp
  with main show ?thesis by simp
qed


theorem computed_access_drops_witness:
  "resolveExpression (MemberExpression (Identifier ''v'') (Identifier ''k'') True)
     [(''v'', Object [(''a'', Unresolved), (''b'', Unresolved)])]
   = \<lparr>resolvedValue = [], isFullyResolved = True, unresolvedParts = []\<rparr>"
  using computed_access_drops
    [of "Identifier ''v''" "[(''v'', Object [(''a'', Unresolved), (''b'', Unresolved)])]"
        "Object [(''a'', Unresolved), (''b'', Unresolved)]"
        "[(''a'', Unresolved), (''b'', Unresolved)]" "Identifier ''k''", THEN conjunct2]
  by (simp add: rootObject_def Object_def)

section \<open>The walk of a property-access chain\<close>

lemma walk_by_root:
  "resolveMemberExpressionToValue (MemberExpression object property computed) symbols
     = (case rootObject object symbols of
          Inr (Some cur) \<Rightarrow>
            if rtype cur = TObject \<and> properties cur \<noteq> None then
              (case property of Identifier k \<Rightarrow> map_of (the (properties cur)) k | _ \<Rightarrow> None)
            else None
        | _ \<Rightarrow> None)"
  by (subst resolveMemberExpressionToValue.simps(1), cases object)
     (simp_all add: rootObject_def split: option.splits)

text \<open>
  C3, as the text states it, fails on a String-typed base: \<^verbatim>\<open>s\<close> is bound to a
  String, the walk of \<^verbatim>\<open>s.a\<close> returns nothing and \<^verbatim>\<open>s.a.b\<close> is
  unresolved.
\<close>

theorem string_base_walk_counterexample:
  "rootObject (Identifier ''s'') [(''s'', String ''x'')] = Inr (Some (String ''x''))
   \<and> rtype (String ''x'') = TString
   \<and> resolveMemberExpressionToValue
        (MemberExpression (Identifier ''s'') (Identifier ''a'') False) [(''s'', String ''x'')] = None
   \<and> resolveExpression
        (MemberExpression (MemberExpression (Identifier ''s'') (Identifier ''a'') False)
           (Identifier ''b'') False) [(''s'', String ''x'')]
       = \<lparr>resolvedValue = [], isFullyResolved = False, unresolvedParts = [''s.a.b'']\<rparr>"
  by (simp add: rootObject_def String_def resolveMemberExpression_def unresolved_result_def
        resolveMemberExpressionToValue.simps)

text \<open>
  C3, amended. When resolving a nested property-access chain, the recursive walk of the base
  succeeds for bases whose resolved value is Object-typed, and only for those: it returns
  the property that the identifier key names, nothing when the key is absent or is not an
  identifier. A base of any other shape (String-typed, Unresolved, unbound, or neither a
  name nor a property access) makes the walk return nothing and the whole access unresolved
  with one fragment rendering the full access path.
\<close>

theorem only_object_bases_walkable:
  "(rootObject object symbols = Inr (Some cur) \<and> rtype cur = TObject \<and> properties cur = Some ps
      \<longrightarrow> resolveMemberExpressionToValue (MemberExpression object property computed) symbols
            = (case name_field property of Some k \<Rightarrow> map_of ps k | None \<Rightarrow> None))
   \<and> ((\<forall>cur. rootObject object symbols = Inr (Some cur)
           \<longrightarrow> rtype cur \<noteq> TObject \<or> properties cur = None)
      \<longrightarrow> resolveMemberExpressionToValue (MemberExpression object property computed) symbols = None
          \<and> resolveExpression (MemberExpression object property computed) symbols
              = \<lparr>resolvedValue = [], isFullyResolved = False,
                 unresolvedParts = [stringifyExpr (MemberExpression object property computed)]\<rparr>)"
proof (intro conjI impI)
  assume "rootObject object symbols = Inr (Some cur) \<and> rtype cur = TObject
            \<and> properties cur = Some ps"
  then show "resolveMemberExpressionToValue (MemberExpression object property computed) symbols
            = (case name_field property of Some k \<Rightarrow> map_of ps k | None \<Rightarrow> None)"
    by (cases property) (simp_all add: walk_by_root)
next
  assume a: "\<forall>cur. rootObject object symbols = Inr (Some cur)
           \<longrightarrow> rtype cur \<noteq> TObject \<or> properties cur = None"
  then show "resolveMemberExpressionToValue (MemberExpression object property computed) symbols = None"
    by (auto simp: walk_by_root split: sum.splits option.splits)
next
  assume a: "\<forall>cur. rootObject object symbols = Inr (Some cur)
           \<longrightarrow> rtype cur \<noteq> TObject \<or> properties cur = None"
  then show "resolveExpression (MemberExpression object property computed) symbols
              = \<lparr>resolvedValue = [], isFullyResolved = False,
                 unresolvedParts = [stringifyExpr (MemberExpression object property computed)]\<rparr>"
    by (cases "rootObject object symbols")
       (auto simp: resolveMemberExpression_def unresolved_result_def split: option.splits)
qed

theorem only_object_bases_walkable_witness:
  "resolveMemberExpressionToValue
     (MemberExpression (Identifier ''tokens'') (Identifier ''colors'') False)
     [(''tokens'', Object [(''colors'', Object [(''primary'', String ''text-blue-500'')])])]
     = Some (Object [(''primary'', String ''text-blue-500'')])
   \<and> resolveMemberExpressionToValue
       (MemberExpression (Identifier ''s'') (Identifier ''a'') False) [(''s'', String ''x'')] = None
   \<and> resolveExpression
        (MemberExpression (Identifier ''s'') (Identifier ''a'') False) [(''s'', String ''x'')]
       = \<lparr>resolvedValue = [], isFullyResolved = False, unresolvedParts = [''s.a'']\<rparr>"
proof -
  have r: "rootObject (Identifier ''tokens'')
             [(''tokens'', Object [(''colors'', Object [(''primary'', String ''text-blue-500'')])])]
           = Inr (Some (Object [(''colors'', Object [(''primary'', String ''text-blue-500'')])]))
         \<and> rtype (Object [(''colors'', Object [(''primary'', String ''text-blue-500'')])]) = TObject
         \<and> properties (Object [(''colors'', Object [(''primary'', String ''text-blue-500'')])])
             = Some [(''colors'', Object [(''primary'', String ''text-blue-500'')])]"
    by (simp add: rootObject_def Object_def)
  have w1: "resolveMemberExpressionToValue
     (MemberExpression (Identifier ''tokens'') (Identifier ''colors'') False)
     [(''tokens'', Object [(''colors'', Object [(''primary'', String ''text-blue-500'')])])]
     = Some (Object [(''primary'', String ''text-blue-500'')])"
    using only_object_bases_walkable
      [where object = "Identifier ''tokens''" and property = "Identifier ''colors''"
         and computed = False
         and symbols = "[(''tokens'', Object [(''colors'', Object [(''primary'', String ''text-blue-500'')])])]"
         and cur = "Object [(''colors'', Object [(''primary'', String ''text-blue-500'')])]"
         and ps = "[(''colors'', Object [(''primary'', String ''text-blue-500'')])]",
       THEN conjunct1, THEN mp, OF r]
    by simp
  have s: "\<forall>cur. rootObject (Identifier ''s'') [(''s'', String ''x'')] = Inr (Some cur)
             \<longrightarrow> rtype cur \<noteq> TObject \<or> properties cur = None"
    by (simp add: rootObject_def String_def)
  note w2 = only_object_bases_walkable
      [where object = "Identifier ''s''" and property = "Identifier ''a''" and computed = False
         and symbols = "[(''s'', String ''x'')]",
       THEN conjunct2, THEN mp, OF s]
  have w3: "resolveExpression
        (MemberExpression (Identifier ''s'') (Identifier ''a'') False) [(''s'', String ''x'')]
       = \<lparr>resolvedValue = [], isFullyResolved = False, unresolvedParts = [''s.a'']\<rparr>"
    using w2[THEN conjunct2] by simp
  show ?thesis by (intro conjI) (rule w1, rule w2[THEN conjunct1], rule w3)
qed

section \<open>String templates\<close>

lemma join_empty_sep: "join [] xs = concat xs"
  by (induction "[] :: string" xs rule: join.induct) auto

lemma templateLoop_spec:
  "length es \<le> length qs \<Longrightarrow>
   templateLoop qs es symbols (parts, u, a) = (P, U, A) \<Longrightarrow>
     concat P = concat parts @ interleave qs (map (\<lambda>e. resolvedValue (resolveExpression e symbols)) es)
     \<and> U = u @ concat (map (\<lambda>e. unresolvedParts (resolveExpression e symbols)) es)
     \<and> A = (a \<and> (\<forall>e \<in> set es. isFullyResolved (resolveExpression e symbols)))"
proof (induction qs arbitrary: es parts u a)
  case Nil
  then show ?case by simp
next
  case (Cons q qs)
  show ?case
  proof (cases es)
    case Nil
    with Cons.prems(2) have "templateLoop qs [] symbols (parts @ [q], u, a) = (P, U, A)" by simp
    from Cons.IH[OF _ this] Nil show ?thesis by simp
  next
    case (Cons e es')
    let ?r = "resolveExpression e symbols"
    show ?thesis
    proof (cases "isFullyResolved ?r")
      case True
      then have nil: "unresolvedParts ?r = []" using resolve_verdict_all(1)[of e symbols] by simp
      from True Cons Cons.prems(2)
      have "templateLoop qs es' symbols (parts @ [q] @ [resolvedValue ?r], u, a) = (P, U, A)"
        by (simp add: Let_def)
      from Cons.IH[OF _ this] Cons.prems(1) Cons True nil show ?thesis by simp
    next
      case False
      from False Cons Cons.prems(2)
      have "templateLoop qs es' symbols
              (parts @ [q] @ [resolvedValue ?r], u @ unresolvedParts ?r, False) = (P, U, A)"
        by (simp add: Let_def)
      from Cons.IH[OF _ this] Cons.prems(1) Cons False show ?thesis by simp
    qed
  qed
qed

text \<open>
  C6. For a template literal with literal parts \<open>L0 .. Ln\<close> and embedded expressions
  \<open>E0 .. E(n-1)\<close>, \<^verbatim>\<open>resolveExpression\<close> returns the text
  \<open>L0 + resolve(E0).text + L1 + ... + Ln\<close> in source order, each embedded text appended
  whether or not the expression resolved; the result is fully resolved iff every embedded
  expression is, and its unresolved parts are those of the embedded expressions, in order.
\<close>

theorem template_in_source_order:
  assumes "length quasis = Suc (length expressions)"
  shows "resolveExpression (TemplateLiteral quasis expressions) symbols
           = \<lparr>resolvedValue =
                interleave quasis (map (\<lambda>e. resolvedValue (resolveExpression e symbols)) expressions),
              isFullyResolved = (\<forall>e \<in> set expressions. isFullyResolved (resolveExpression e symbols)),
              unresolvedParts =
                concat (map (\<lambda>e. unresolvedParts (resolveExpression e symbols)) expressions)\<rparr>"
proof -
  obtain P U A where loop: "templateLoop quasis expressions symbols ([], [], True) = (P, U, A)"
    by (metis prod_cases3)
  have "length expressions \<le> length quasis" using assms by simp
  from templateLoop_spec[OF this loop] loop show ?thesis
    by (simp add: join_empty_sep)
qed

theorem template_in_source_order_witness:
  "resolveExpression (TemplateLiteral [[], '' hover:opacity-80''] [Identifier ''dynamic'']) []
   = \<lparr>resolvedValue = '' hover:opacity-80'', isFullyResolved = False,
      unresolvedParts = [''dynamic'']\<rparr>"
  using template_in_source_order [of "[[], '' hover:opacity-80'']" "[Identifier ''dynamic'']" "[]"]
  by simp



section \<open>The bindings of a symbol table\<close>

lemmas eval_files =
  locate_def extensions_def mockHost_def createMockFileReader_def lockedReader_def

lemmas eval_visit =
  buildSymbolTable.simps visit.simps visitOwn_def declareAll_def queueImports_def
  importOf_def exportConst_def exportDefault_def

lemmas eval_build = eval_files eval_visit resolveImport_def getExportedValue_def

lemma keys_declareAll:
  "fst ` set (declareAll ds symbols) = fst ` set symbols \<union> set (declaredIn ds)"
proof (induction ds arbitrary: symbols)
  case Nil
  show ?case by (simp add: declareAll_def declaredIn_def)
next
  case (Cons d ds)
  have step: "declareAll (d # ds) symbols
      = declareAll ds (case d of
               VariableDeclarator ident init \<Rightarrow>
                 (case (ident, init) of
                    (Identifier name, Some i) \<Rightarrow> AList.update name (extractValue i symbols) symbols
                  | _ \<Rightarrow> symbols)
             | _ \<Rightarrow> symbols)"
    by (simp add: declareAll_def)
  show ?case
    unfolding step Cons.IH
    by (auto simp: declaredIn_def AList.dom_update split: node.splits option.splits)
qed

lemma locals_queueImports:
  "localName ` set (queueImports specs src pending)
     = localName ` set pending \<union> set (concat (map specifierLocal specs))"
proof (induction specs arbitrary: pending)
  case Nil
  show ?case by (simp add: queueImports_def)
next
  case (Cons sp specs)
  have step: "queueImports (sp # specs) src pending
      = queueImports specs src
          (case sp of
               ImportSpecifier local imported \<Rightarrow>
                 if \<not> truthy (name_field local) then pending
                 else pending @
                   [\<lparr>localName = the (name_field local),
                     importedName = (if truthy (name_field imported) then the (name_field imported)
                                     else the (name_field local)),
                     sourcePath = src\<rparr>]
             | ImportDefaultSpecifier local \<Rightarrow>
                 if \<not> truthy (name_field local) then pending
                 else pending @
                   [\<lparr>localName = the (name_field local), importedName = ''default'',
                     sourcePath = src\<rparr>]
             | ImportNamespaceSpecifier local \<Rightarrow>
                 if \<not> truthy (name_field local) then pending
                 else pending @
                   [\<lparr>localName = the (name_field local), importedName = ''*'',
                     sourcePath = src\<rparr>]
             | _ \<Rightarrow> pending)"
    by (simp add: queueImports_def)
  show ?case
    unfolding step Cons.IH
    by (cases sp rule: specifierLocal.cases) auto
qed

lemma concat_map_concat:
  "concat (map f (concat xss)) = concat (map (\<lambda>xs. concat (map f xs)) xss)"
  by (induction xss) auto

lemma declaredNames_unfold:
  "declaredNames n = ownDeclared n @ concat (map declaredNames (children n))"
proof -
  have d: "declaredNames = (\<lambda>a. concat (map ownDeclared (subnodes a)))"
    by (rule ext) (simp add: declaredNames_def ownDeclared_def [abs_def])
  have "declaredNames n = concat (map ownDeclared (subnodes n))"
    by (simp add: d)
  also have "subnodes n = n # concat (map subnodes (children n))"
    by (rule subnodes.simps)
  finally show ?thesis
    by (simp add: d concat_map_concat comp_def)
qed

lemma importedLocals_unfold:
  "importedLocals n = ownImported n @ concat (map importedLocals (children n))"
proof -
  have d: "importedLocals = (\<lambda>a. concat (map ownImported (subnodes a)))"
    by (rule ext) (simp add: importedLocals_def ownImported_def [abs_def])
  have "importedLocals n = concat (map ownImported (subnodes n))"
    by (simp add: d)
  also have "subnodes n = n # concat (map subnodes (children n))"
    by (rule subnodes.simps)
  finally show ?thesis
    by (simp add: d concat_map_concat comp_def)
qed

lemma visitOwn_keys:
  "fst ` set (fst (visitOwn n st)) \<union> set (concat (map declaredNames (children n)))
     = fst ` set (fst st) \<union> set (declaredNames n)"
proof (cases n)
  case (VariableDeclaration ds)
  then show ?thesis
    by (subst declaredNames_unfold[of n])
       (auto simp: visitOwn_def ownDeclared_def keys_declareAll)
next
  case (ExportNamedDeclaration dcl specifiers)
  show ?thesis
  proof (cases dcl)
    case None
    with ExportNamedDeclaration show ?thesis
      by (subst declaredNames_unfold[of n]) (simp add: visitOwn_def ownDeclared_def)
  next
    case (Some d)
    have "set (declaredIn ds) \<subseteq> set (declaredNames d)" if "d = VariableDeclaration ds" for ds
      using that by (subst declaredNames_unfold[of d]) (simp add: ownDeclared_def)
    with ExportNamedDeclaration Some show ?thesis
      by (subst declaredNames_unfold[of n])
         (auto simp: visitOwn_def ownDeclared_def keys_declareAll split: node.splits)
  qed
qed (subst declaredNames_unfold [of n], simp add: visitOwn_def ownDeclared_def)+

lemma visitOwn_locals:
  "localName ` set (snd (visitOwn n st)) = localName ` set (snd st) \<union> set (ownImported n)"
  by (cases n) (auto simp: visitOwn_def ownImported_def locals_queueImports split: option.splits node.splits)

lemma fold_visit_keys:
  assumes "\<And>c st. c \<in> set cs \<Longrightarrow>
             fst ` set (fst (visit c st)) = fst ` set (fst st) \<union> set (declaredNames c)"
  shows "fst ` set (fst (fold visit cs st))
           = fst ` set (fst st) \<union> set (concat (map declaredNames cs))"
  using assms by (induction cs arbitrary: st) auto

lemma fold_visit_locals:
  assumes "\<And>c st. c \<in> set cs \<Longrightarrow>
             localName ` set (snd (visit c st)) = localName ` set (snd st) \<union> set (importedLocals c)"
  shows "localName ` set (snd (fold visit cs st))
           = localName ` set (snd st) \<union> set (concat (map importedLocals cs))"
  using assms by (induction cs arbitrary: st) auto

lemma visit_keys:
  "fst ` set (fst (visit n st)) = fst ` set (fst st) \<union> set (declaredNames n)"
proof (induction n st rule: visit.induct)
  case (1 n st)
  have "fst ` set (fst (visit n st))
          = fst ` set (fst (visitOwn n st)) \<union> set (concat (map declaredNames (children n)))"
    by (subst visit.simps) (rule fold_visit_keys, rule 1)
  then show ?case by (simp only: visitOwn_keys)
qed

lemma visit_locals:
  "localName ` set (snd (visit n st)) = localName ` set (snd st) \<union> set (importedLocals n)"
proof (induction n st rule: visit.induct)
  case (1 n st)
  have "localName ` set (snd (visit n st))
          = localName ` set (snd (visitOwn n st)) \<union> set (concat (map importedLocals (children n)))"
    by (subst visit.simps) (rule fold_visit_locals, rule 1)
  then show ?case
    by (subst importedLocals_unfold) (auto simp: visitOwn_locals)
qed

lemma fold_update_keys:
  assumes "\<And>imp s c. \<exists>v c'. F imp (s, c) = (AList.update (localName imp) v s, c')"
  shows "fst ` set (fst (fold F pending st)) = fst ` set (fst st) \<union> localName ` set pending"
proof (induction pending arbitrary: st)
  case Nil
  show ?case by simp
next
  case (Cons imp pending)
  obtain s c where st: "st = (s, c)" by (cases st)
  from assms[of imp s c] obtain v c' where "F imp (s, c) = (AList.update (localName imp) v s, c')"
    by blast
  with st Cons.IH[of "F imp st"] show ?case
    by (auto simp: AList.dom_update)
qed

text \<open>
  C4, as the text states it, fails on a variable declaration inside a function body:
  \<^verbatim>\<open>visit\<close> recurses into every child of every node, and the declaration of
  \<^verbatim>\<open>x\<close> in \<^verbatim>\<open>function Button() { const x = "a"; }\<close> creates a binding.
\<close>

theorem nested_declaration_counterexample:
  "fst (buildSymbolTable (mockHost []) nestedAst
          \<lparr>currentFilePath = None, followImports = None, fileReader = createMockFileReader []\<rparr>
          Map.empty)
     = [(''x'', String ''a'')]"
  by (simp add: eval_build nestedAst_def)

text \<open>
  C4, amended. \<^verbatim>\<open>buildSymbolTable\<close> enters a binding into the table exactly for the
  variable declarators with an identifier and an initializer in a variable declaration at
  any depth of the tree (top-level, export-wrapped, or nested in another construct such as a
  function body) and for the import specifiers with a local name.
\<close>

theorem bindings_at_any_depth:
  "fst ` set (fst (buildSymbolTable host ast options importCache))
     = set (declaredNames ast) \<union> set (importedLocals ast)"
proof -
  obtain symbols0 pending where v: "visit ast ([], []) = (symbols0, pending)"
    by (cases "visit ast ([], [])")
  have k: "fst ` set symbols0 = set (declaredNames ast)"
    using visit_keys[of ast "([], [])"] v by simp
  have l: "localName ` set pending = set (importedLocals ast)"
    using visit_locals[of ast "([], [])"] v by simp
  show ?thesis
    unfolding buildSymbolTable.simps[of host ast options importCache] v prod.case
    by (subst fold_update_keys) (auto simp: k l split: prod.splits option.splits)
qed

theorem bindings_at_any_depth_witness:
  "fst ` set (fst (buildSymbolTable (mockHost []) nestedAst
          \<lparr>currentFilePath = None, followImports = None, fileReader = createMockFileReader []\<rparr>
          Map.empty)) = {''x''}"
  using bindings_at_any_depth
    [of "mockHost []" nestedAst
        "\<lparr>currentFilePath = None, followImports = None, fileReader = createMockFileReader []\<rparr>"
        Map.empty]
  by (simp add: nestedAst_def declaredNames_def importedLocals_def subnodes.simps declaredIn_def)

section \<open>Import resolution is one level deep\<close>

lemma fold_no_follow:
  assumes "\<And>imp s c. F imp (s, c) = (AList.update (localName imp) Unresolved s, c)"
  shows "fold F pending (s, c) = (fold (\<lambda>imp. AList.update (localName imp) Unresolved) pending s, c)"
  using assms by (induction pending arbitrary: s) auto

lemma build_no_follow:
  assumes "followImports options = Some False"
  shows "buildSymbolTable host ast options cache
           = (fold (\<lambda>imp. AList.update (localName imp) Unresolved) (snd (visit ast ([], [])))
                (fst (visit ast ([], []))), cache)"
proof -
  obtain symbols0 pending where v: "visit ast ([], []) = (symbols0, pending)"
    by (cases "visit ast ([], [])")
  show ?thesis
    unfolding buildSymbolTable.simps[of host ast options cache] v prod.case
    by (subst fold_no_follow) (simp_all add: assms)
qed

lemma map_of_fold_unresolved:
  "map_of (fold (\<lambda>imp. AList.update (localName imp) Unresolved) pending s) k
     = (if k \<in> localName ` set pending then Some Unresolved else map_of s k)"
  by (induction pending arbitrary: s) (auto simp: AList.update_conv')

lemma no_follow_table:
  assumes "followImports options = Some False"
    and "buildSymbolTable host ast options cache = (table, cache')"
  shows "cache' = cache"
    and "map_of table k = (if k \<in> set (importedLocals ast) then Some Unresolved
                           else map_of (fst (visit ast ([], []))) k)"
    and "fst ` set (fst (visit ast ([], []))) = set (declaredNames ast)"
proof -
  from assms build_no_follow[OF assms(1), of host ast cache]
  have t: "table = fold (\<lambda>imp. AList.update (localName imp) Unresolved) (snd (visit ast ([], [])))
                (fst (visit ast ([], [])))" and c: "cache' = cache"
    by simp_all
  show "cache' = cache" by (rule c)
  show "map_of table k = (if k \<in> set (importedLocals ast) then Some Unresolved
                           else map_of (fst (visit ast ([], []))) k)"
    unfolding t map_of_fold_unresolved using visit_locals[of ast "([], [])"] by simp
  show "fst ` set (fst (visit ast ([], []))) = set (declaredNames ast)"
    using visit_keys[of ast "([], [])"] by simp
qed

text \<open>
  C7. When \<^verbatim>\<open>resolveImport\<close> builds the symbol table of an imported file it does so
  with \<^verbatim>\<open>followImports: false\<close>: that build leaves the import cache as it is, does
  not depend on the file system, and binds every import of the imported file to Unresolved;
  \<^verbatim>\<open>resolveImport\<close> then caches exactly that table. The recursion of
  \<^verbatim>\<open>buildSymbolTable\<close> through \<^verbatim>\<open>resolveImport\<close> is accepted by its
  termination proof, on any import graph and with no visited set.
\<close>

theorem import_resolution_one_level:
  assumes "path = locate host reader cur src" and "exists reader path"
    and "cache path = None"
    and "read reader path = Inr content" and "parse host content = Inr importAst"
    and "buildSymbolTable host importAst
           \<lparr>currentFilePath = Some path, followImports = Some False, fileReader = reader\<rparr> cache
         = (T, cache')"
  shows "cache' = cache
       \<and> resolveImport host cur src name
            (\<lambda>importAst filePath c.
               buildSymbolTable host importAst
                 \<lparr>currentFilePath = Some filePath, followImports = Some False,
                  fileReader = reader\<rparr> c) reader cache
          = (getExportedValue T name, cache(path \<mapsto> T))
       \<and> (\<forall>l \<in> set (importedLocals importAst). map_of T l = Some Unresolved)
       \<and> buildSymbolTable host' importAst
            \<lparr>currentFilePath = Some path, followImports = Some False, fileReader = reader'\<rparr> cache
          = (T, cache)"
proof -
  let ?opts = "\<lparr>currentFilePath = Some path, followImports = Some False, fileReader = reader\<rparr>"
  let ?opts' = "\<lparr>currentFilePath = Some path, followImports = Some False, fileReader = reader'\<rparr>"
  have o: "followImports ?opts = Some False" and o': "followImports ?opts' = Some False"
    by simp_all
  note nf = no_follow_table[OF o assms(6)]
  have "resolveImport host cur src name
            (\<lambda>importAst filePath c.
               buildSymbolTable host importAst
                 \<lparr>currentFilePath = Some filePath, followImports = Some False,
                  fileReader = reader\<rparr> c) reader cache
          = (getExportedValue T name, cache(path \<mapsto> T))"
    using assms nf(1) by (simp add: resolveImport_def)
  moreover have "\<forall>l \<in> set (importedLocals importAst). map_of T l = Some Unresolved"
    using nf(2) by simp
  moreover have "buildSymbolTable host' importAst ?opts' cache = (T, cache)"
    using build_no_follow[OF o, of host importAst cache]
          build_no_follow[OF o', of host' importAst cache] assms(6)
    by simp
  ultimately show ?thesis using nf(1) by blast
qed

theorem import_resolution_one_level_witness:
  "resolveImport cycleHost ''/project/a.ts'' ''./b'' ''b''
     (\<lambda>importAst filePath c.
        buildSymbolTable cycleHost importAst
          \<lparr>currentFilePath = Some filePath, followImports = Some False,
           fileReader = cycleFiles\<rparr> c) cycleFiles Map.empty
   = (Some (String ''from-b''),
      [''/project/b.ts'' \<mapsto> [(''b'', String ''from-b''), (''a'', Unresolved)]])
   \<and> buildSymbolTable cycleHost cycleA
        \<lparr>currentFilePath = Some ''/project/a.ts'', followImports = None,
         fileReader = cycleFiles\<rparr> Map.empty
      = ([(''a'', String ''from-a''), (''b'', String ''from-b'')],
         [''/project/b.ts'' \<mapsto> [(''b'', String ''from-b''), (''a'', Unresolved)]])"
proof -
  have path: "locate cycleHost cycleFiles ''/project/a.ts'' ''./b'' = ''/project/b.ts''"
    by (simp add: eval_files cycleHost_def cycleFiles_def)
  have build: "buildSymbolTable cycleHost cycleB
           \<lparr>currentFilePath = Some ''/project/b.ts'', followImports = Some False,
            fileReader = cycleFiles\<rparr> Map.empty
         = ([(''b'', String ''from-b''), (''a'', Unresolved)], Map.empty)"
    by (simp add: eval_visit cycleB_def)
  have ex: "exists cycleFiles ''/project/b.ts''"
    by (simp add: cycleFiles_def createMockFileReader_def)
  have rd: "read cycleFiles ''/project/b.ts'' = Inr ''source of b''"
    by (simp add: cycleFiles_def createMockFileReader_def)
  have ps: "parse cycleHost ''source of b'' = Inr cycleB"
    by (simp add: cycleHost_def mockHost_def)
  have ge: "getExportedValue [(''b'', String ''from-b''), (''a'', Unresolved)] ''b''
              = Some (String ''from-b'')"
    by (simp add: getExportedValue_def)
  from import_resolution_one_level
         [where name = "''b''" and host' = cycleHost and reader' = cycleFiles,
          OF path[symmetric] ex _ rd ps build]
  have one: "resolveImport cycleHost ''/project/a.ts'' ''./b'' ''b''
     (\<lambda>importAst filePath c.
        buildSymbolTable cycleHost importAst
          \<lparr>currentFilePath = Some filePath, followImports = Some False,
           fileReader = cycleFiles\<rparr> c) cycleFiles Map.empty
   = (Some (String ''from-b''),
      [''/project/b.ts'' \<mapsto> [(''b'', String ''from-b''), (''a'', Unresolved)]])"
    by (simp add: ge)
  have top: "buildSymbolTable cycleHost cycleA
        \<lparr>currentFilePath = Some ''/project/a.ts'', followImports = None,
         fileReader = cycleFiles\<rparr> Map.empty
      = ([(''a'', String ''from-a''), (''b'', String ''from-b'')],
         [''/project/b.ts'' \<mapsto> [(''b'', String ''from-b''), (''a'', Unresolved)]])"
    by (simp add: eval_build cycleHost_def cycleFiles_def cycleA_def cycleB_def)
  show ?thesis by (rule conjI [OF one top])
qed

section \<open>Failures of import resolution\<close>

lemma getExportedValue_missing:
  "name \<noteq> ''*'' \<Longrightarrow> name \<notin> fst ` set T \<Longrightarrow> getExportedValue T name = None"
  by (auto simp: getExportedValue_def map_of_eq_None_iff)

lemma buildSymbolTable_steps:
  "buildSymbolTable host ast options cache
     = fold (importStep host options) (snd (visit ast ([], []))) (fst (visit ast ([], [])), cache)"
proof -
  have "importStep host options
          = (\<lambda>imp (symbols, cache).
                  if \<not> truthy (currentFilePath options)
                     \<or> \<not> (case followImports options of None \<Rightarrow> True | Some b \<Rightarrow> b) then
                    (AList.update (localName imp) Unresolved symbols, cache)
                  else
                    (case resolveImport host (the (currentFilePath options)) (sourcePath imp)
                            (importedName imp)
                            (\<lambda>importAst filePath c.
                               buildSymbolTable host importAst
                                 \<lparr>currentFilePath = Some filePath, followImports = Some False,
                                  fileReader = fileReader options\<rparr> c)
                            (fileReader options) cache of
                       (Some rv, cache') \<Rightarrow> (AList.update (localName imp) rv symbols, cache')
                     | (None, cache') \<Rightarrow>
                         (AList.update (localName imp) Unresolved symbols, cache')))"
    by (intro ext) (simp add: importStep_def split: prod.splits)
  then show ?thesis
    by (subst buildSymbolTable.simps) (simp add: case_prod_beta)
qed

lemma importStep_unresolved:
  assumes "fst (resolveImport host (the (currentFilePath options)) (sourcePath imp)
                (importedName imp)
                (\<lambda>importAst filePath c.
                   buildSymbolTable host importAst
                     \<lparr>currentFilePath = Some filePath, followImports = Some False,
                      fileReader = fileReader options\<rparr> c)
                (fileReader options) cache) \<in> {None, Some Unresolved}"
  shows "map_of (fst (importStep host options imp (symbols, cache))) (localName imp)
           = Some Unresolved"
  using assms
  by (auto simp: importStep_def AList.update_conv' split: prod.splits option.splits)

text \<open>
  C8. \<^verbatim>\<open>resolveImport\<close> returns the "not found" result, and no exception, when the
  target file is missing, when reading it fails, when parsing it fails, and when the
  requested export is missing from the table (cached or just built); and the loop of
  \<^verbatim>\<open>buildSymbolTable\<close> binds the local name of an import with that result to
  Unresolved.
\<close>

theorem resolveImport_total:
  assumes "path = locate host reader cur src"
  shows "(\<not> exists reader path \<longrightarrow>
            resolveImport host cur src name buildFn reader cache = (None, cache))
       \<and> (exists reader path \<and> cache path = None \<and> read reader path = Inl e \<longrightarrow>
            resolveImport host cur src name buildFn reader cache = (None, cache))
       \<and> (exists reader path \<and> cache path = None \<and> read reader path = Inr content
            \<and> parse host content = Inl e' \<longrightarrow>
            resolveImport host cur src name buildFn reader cache = (None, cache))
       \<and> (exists reader path \<and> cache path = Some cached \<and> name \<noteq> ''*''
            \<and> name \<notin> fst ` set cached \<longrightarrow>
            resolveImport host cur src name buildFn reader cache = (None, cache))
       \<and> (exists reader path \<and> cache path = None \<and> read reader path = Inr content
            \<and> parse host content = Inr importAst \<and> name \<noteq> ''*''
            \<and> name \<notin> fst ` set (fst (buildFn importAst path cache)) \<longrightarrow>
            fst (resolveImport host cur src name buildFn reader cache) = None)
       \<and> (fst (resolveImport host (the (currentFilePath options)) (sourcePath imp)
                      (importedName imp)
                      (\<lambda>importAst filePath c.
                         buildSymbolTable host importAst
                           \<lparr>currentFilePath = Some filePath, followImports = Some False,
                            fileReader = fileReader options\<rparr> c)
                      (fileReader options) cache') = None \<longrightarrow>
            map_of (fst (importStep host options imp (symbols, cache'))) (localName imp)
              = Some Unresolved)
       \<and> buildSymbolTable host ast options cache'
            = fold (importStep host options) (snd (visit ast ([], [])))
                (fst (visit ast ([], [])), cache')"
proof (intro conjI impI)
  assume "\<not> exists reader path"
  then show "resolveImport host cur src name buildFn reader cache = (None, cache)"
    using assms by (simp add: resolveImport_def)
next
  assume "exists reader path \<and> cache path = None \<and> read reader path = Inl e"
  then show "resolveImport host cur src name buildFn reader cache = (None, cache)"
    using assms by (simp add: resolveImport_def)
next
  assume "exists reader path \<and> cache path = None \<and> read reader path = Inr content
            \<and> parse host content = Inl e'"
  then show "resolveImport host cur src name buildFn reader cache = (None, cache)"
    using assms by (simp add: resolveImport_def)
next
  assume "exists reader path \<and> cache path = Some cached \<and> name \<noteq> ''*''
            \<and> name \<notin> fst ` set cached"
  then show "resolveImport host cur src name buildFn reader cache = (None, cache)"
    using assms by (simp add: resolveImport_def getExportedValue_missing)
next
  assume "exists reader path \<and> cache path = None \<and> read reader path = Inr content
            \<and> parse host content = Inr importAst \<and> name \<noteq> ''*''
            \<and> name \<notin> fst ` set (fst (buildFn importAst path cache))"
  then show "fst (resolveImport host cur src name buildFn reader cache) = None"
    using assms
    by (cases "buildFn importAst path cache")
       (simp add: resolveImport_def getExportedValue_missing)
next
  assume a: "fst (resolveImport host (the (currentFilePath options)) (sourcePath imp)
                      (importedName imp)
                      (\<lambda>importAst filePath c.
                         buildSymbolTable host importAst
                           \<lparr>currentFilePath = Some filePath, followImports = Some False,
                            fileReader = fileReader options\<rparr> c)
                      (fileReader options) cache') = None"
  show "map_of (fst (importStep host options imp (symbols, cache'))) (localName imp)
          = Some Unresolved"
    by (rule importStep_unresolved) (use a in simp)
next
  show "buildSymbolTable host ast options cache'
            = fold (importStep host options) (snd (visit ast ([], [])))
                (fst (visit ast ([], [])), cache')"
    by (rule buildSymbolTable_steps)
qed

theorem resolveImport_total_witness:
  "resolveImport (mockHost []) ''/project/component.tsx'' ''./nonexistent'' ''missing''
     (\<lambda>importAst filePath c. (fst (visit importAst ([], [])), c))
     (createMockFileReader []) Map.empty = (None, Map.empty)
   \<and> resolveImport (mockHost []) ''/project/component.tsx'' ''./locked'' ''a''
     (\<lambda>importAst filePath c. (fst (visit importAst ([], [])), c))
     lockedReader Map.empty = (None, Map.empty)
   \<and> resolveImport (mockHost []) ''/project/component.tsx'' ''./broken'' ''a''
     (\<lambda>importAst filePath c. (fst (visit importAst ([], [])), c))
     (createMockFileReader [(''/project/broken.ts'', ''const = ;'')]) Map.empty
       = (None, Map.empty)
   \<and> resolveImport (mockHost []) ''/project/component.tsx'' ''./tokens'' ''b''
     (\<lambda>importAst filePath c. (fst (visit importAst ([], [])), c))
     (createMockFileReader [(''/project/tokens.ts'', ''export const a = z'')])
     [''/project/tokens.ts'' \<mapsto> [(''a'', String ''z'')]]
       = (None, [''/project/tokens.ts'' \<mapsto> [(''a'', String ''z'')]])
   \<and> fst (resolveImport (mockHost [(''export const a = z'', exportConst ''a'' ''z'')])
          ''/project/component.tsx'' ''./tokens'' ''b''
          (\<lambda>importAst filePath c. (fst (visit importAst ([], [])), c))
          (createMockFileReader [(''/project/tokens.ts'', ''export const a = z'')]) Map.empty)
       = None
   \<and> map_of (fst (buildSymbolTable (mockHost [])
         (importOf (ImportSpecifier (Identifier ''missing'') (Identifier ''missing''))
            ''./nonexistent'')
         \<lparr>currentFilePath = Some ''/project/component.tsx'', followImports = Some True,
          fileReader = createMockFileReader []\<rparr> Map.empty)) ''missing'' = Some Unresolved"
proof -
  let ?build = "\<lambda>importAst filePath (c :: ImportCache). (fst (visit importAst ([], [])), c)"
  have c1: "resolveImport (mockHost []) ''/project/component.tsx'' ''./nonexistent'' ''missing''
     ?build (createMockFileReader []) Map.empty = (None, Map.empty)"
    using resolveImport_total
      [where host = "mockHost []" and reader = "createMockFileReader []"
         and cur = "''/project/component.tsx''" and src = "''./nonexistent''"
         and name = "''missing''" and cache = Map.empty and buildFn = ?build,
       OF refl, THEN conjunct1]
    by (simp add: eval_files)
  have c2: "resolveImport (mockHost []) ''/project/component.tsx'' ''./locked'' ''a''
     ?build lockedReader Map.empty = (None, Map.empty)"
    using resolveImport_total
      [where host = "mockHost []" and reader = lockedReader
         and cur = "''/project/component.tsx''" and src = "''./locked''"
         and name = "''a''" and cache = Map.empty and buildFn = ?build and e = IOError,
       OF refl, THEN conjunct2, THEN conjunct1]
    by (simp add: eval_files)
  have c3: "resolveImport (mockHost []) ''/project/component.tsx'' ''./broken'' ''a''
     ?build (createMockFileReader [(''/project/broken.ts'', ''const = ;'')]) Map.empty
       = (None, Map.empty)"
    using resolveImport_total
      [where host = "mockHost []"
         and reader = "createMockFileReader [(''/project/broken.ts'', ''const = ;'')]"
         and cur = "''/project/component.tsx''" and src = "''./broken''"
         and name = "''a''" and cache = Map.empty and buildFn = ?build
         and content = "''const = ;''" and e' = ParseError,
       OF refl, THEN conjunct2, THEN conjunct2, THEN conjunct1]
    by (simp add: eval_files)
  have c4: "resolveImport (mockHost []) ''/project/component.tsx'' ''./tokens'' ''b''
     ?build (createMockFileReader [(''/project/tokens.ts'', ''export const a = z'')])
     [''/project/tokens.ts'' \<mapsto> [(''a'', String ''z'')]]
       = (None, [''/project/tokens.ts'' \<mapsto> [(''a'', String ''z'')]])"
    using resolveImport_total
      [where host = "mockHost []"
         and reader = "createMockFileReader [(''/project/tokens.ts'', ''export const a = z'')]"
         and cur = "''/project/component.tsx''" and src = "''./tokens''"
         and name = "''b''" and cache = "[''/project/tokens.ts'' \<mapsto> [(''a'', String ''z'')]]"
         and buildFn = ?build and cached = "[(''a'', String ''z'')]",
       OF refl, THEN conjunct2, THEN conjunct2, THEN conjunct2, THEN conjunct1]
    by (simp add: eval_files)
  have c5: "fst (resolveImport (mockHost [(''export const a = z'', exportConst ''a'' ''z'')])
          ''/project/component.tsx'' ''./tokens'' ''b'' ?build
          (createMockFileReader [(''/project/tokens.ts'', ''export const a = z'')]) Map.empty)
       = None"
    using resolveImport_total
      [where host = "mockHost [(''export const a = z'', exportConst ''a'' ''z'')]"
         and reader = "createMockFileReader [(''/project/tokens.ts'', ''export const a = z'')]"
         and cur = "''/project/component.tsx''" and src = "''./tokens''"
         and name = "''b''" and cache = Map.empty and buildFn = ?build
         and content = "''export const a = z''" and importAst = "exportConst ''a'' ''z''",
       OF refl, THEN conjunct2, THEN conjunct2, THEN conjunct2, THEN conjunct2, THEN conjunct1]
    by (simp add: eval_files eval_visit)
  let ?imp = "\<lparr>localName = ''missing'', importedName = ''missing'',
                sourcePath = ''./nonexistent''\<rparr>"
  let ?options = "\<lparr>currentFilePath = Some ''/project/component.tsx'',
                    followImports = Some True, fileReader = createMockFileReader []\<rparr>"
  let ?ast = "importOf (ImportSpecifier (Identifier ''missing'') (Identifier ''missing''))
                ''./nonexistent''"
  have v: "visit ?ast ([], []) = ([], [?imp])"
    by (simp add: visit.simps visitOwn_def queueImports_def importOf_def)
  have step: "map_of (fst (importStep (mockHost []) ?options ?imp ([], Map.empty))) ''missing''
                = Some Unresolved"
    using resolveImport_total
      [where host = "mockHost []" and reader = "createMockFileReader []"
         and cur = "''/project/component.tsx''" and src = "''./nonexistent''"
         and imp = ?imp and options = ?options and cache' = Map.empty and symbols = "[]",
       OF refl, THEN conjunct2, THEN conjunct2, THEN conjunct2, THEN conjunct2, THEN conjunct2,
       THEN conjunct1]
    by (simp add: eval_files resolveImport_def)
  have c6: "map_of (fst (buildSymbolTable (mockHost []) ?ast ?options Map.empty)) ''missing''
              = Some Unresolved"
    using resolveImport_total
      [where host = "mockHost []" and reader = "createMockFileReader []"
         and cur = "''/project/component.tsx''" and src = "''./nonexistent''"
         and ast = ?ast and options = ?options and cache' = Map.empty,
       OF refl, THEN conjunct2, THEN conjunct2, THEN conjunct2, THEN conjunct2, THEN conjunct2,
       THEN conjunct2]
      step
    by (simp add: v)
  show ?thesis
    by (intro conjI) (rule c1, rule c2, rule c3, rule c4, rule c5, rule c6)
qed

section \<open>Default imports\<close>

lemma default_of_no_follow:
  assumes "''default'' \<notin> set (declaredNames importAst)"
    and "buildSymbolTable host importAst
           \<lparr>currentFilePath = Some p, followImports = Some False, fileReader = reader\<rparr> c = (T, c')"
  shows "getExportedValue T ''default'' \<in> {None, Some Unresolved}"
proof -
  have o: "followImports \<lparr>currentFilePath = Some p, followImports = Some False,
                          fileReader = reader\<rparr> = Some False" by simp
  note nf = no_follow_table[OF o assms(2)]
  have "map_of (fst (visit importAst ([], []))) ''default'' = None"
    using nf(3) assms(1) by (simp add: map_of_eq_None_iff)
  with nf(2)[of "''default''"] show ?thesis
    by (simp add: getExportedValue_def)
qed

lemma resolveImport_default:
  assumes "path = locate host reader cur src" and "cache path = None"
    and "\<And>content importedAst. read reader path = Inr content \<Longrightarrow>
            parse host content = Inr importedAst \<Longrightarrow>
            ''default'' \<notin> set (declaredNames importedAst)"
  shows "fst (resolveImport host cur src ''default''
                (\<lambda>importAst filePath c.
                   buildSymbolTable host importAst
                     \<lparr>currentFilePath = Some filePath, followImports = Some False,
                      fileReader = reader\<rparr> c) reader cache) \<in> {None, Some Unresolved}"
proof (cases "exists reader path")
  case False
  then show ?thesis using assms(1) by (simp add: resolveImport_def)
next
  case True
  show ?thesis
  proof (cases "read reader path")
    case (Inl e)
    with True assms(1,2) show ?thesis by (simp add: resolveImport_def)
  next
    case (Inr content)
    show ?thesis
    proof (cases "parse host content")
      case (Inl e)
      with True Inr assms(1,2) show ?thesis by (simp add: resolveImport_def)
    next
      case (Inr importedAst)
      obtain T c' where b: "buildSymbolTable host importedAst
           \<lparr>currentFilePath = Some path, followImports = Some False, fileReader = reader\<rparr> cache
             = (T, c')"
        by (cases "buildSymbolTable host importedAst
           \<lparr>currentFilePath = Some path, followImports = Some False, fileReader = reader\<rparr> cache")
      from assms(3)[OF \<open>read reader path = Inr content\<close> Inr]
      have "getExportedValue T ''default'' \<in> {None, Some Unresolved}"
        by (rule default_of_no_follow[OF _ b])
      with True \<open>read reader path = Inr content\<close> Inr assms(1,2) b show ?thesis
        by (simp add: resolveImport_def)
    qed
  qed
qed

lemma cacheValid_empty: "cacheValid host reader Map.empty"
  by (simp add: cacheValid_def)

lemma no_follow_any_cache:
  "buildSymbolTable host ast
     \<lparr>currentFilePath = Some p, followImports = Some False, fileReader = reader\<rparr> c
   = (fst (buildSymbolTable host ast
             \<lparr>currentFilePath = Some p, followImports = Some False, fileReader = reader\<rparr>
             Map.empty), c)"
  by (simp add: build_no_follow)

lemma resolveImport_cacheValid:
  assumes "cacheValid host reader c"
  shows "cacheValid host reader
           (snd (resolveImport host cur src name
                   (\<lambda>importAst filePath c.
                      buildSymbolTable host importAst
                        \<lparr>currentFilePath = Some filePath, followImports = Some False,
                         fileReader = reader\<rparr> c) reader c))"
proof -
  let ?path = "locate host reader cur src"
  let ?build = "\<lambda>importAst filePath c.
                      buildSymbolTable host importAst
                        \<lparr>currentFilePath = Some filePath, followImports = Some False,
                         fileReader = reader\<rparr> c"
  show ?thesis
  proof (cases "exists reader ?path \<and> c ?path = None")
    case False
    then have "snd (resolveImport host cur src name ?build reader c) = c"
      by (auto simp: resolveImport_def Let_def)
    with assms show ?thesis by simp
  next
    case True
    show ?thesis
    proof (cases "read reader ?path")
      case (Inl e)
      with True have "snd (resolveImport host cur src name ?build reader c) = c"
        by (simp add: resolveImport_def)
      with assms show ?thesis by simp
    next
      case (Inr content)
      show ?thesis
      proof (cases "parse host content")
        case (Inl e)
        with True Inr have "snd (resolveImport host cur src name ?build reader c) = c"
          by (simp add: resolveImport_def)
        with assms show ?thesis by simp
      next
        case (Inr importedAst)
        let ?T = "fst (buildSymbolTable host importedAst
                        \<lparr>currentFilePath = Some ?path, followImports = Some False,
                         fileReader = reader\<rparr> Map.empty)"
        have "snd (resolveImport host cur src name ?build reader c) = c(?path \<mapsto> ?T)"
          using True \<open>read reader ?path = Inr content\<close> Inr
          by (simp add: resolveImport_def Let_def
                no_follow_any_cache[of host importedAst ?path reader c])
        moreover have "cacheValid host reader (c(?path \<mapsto> ?T))"
          using assms \<open>read reader ?path = Inr content\<close> Inr
          unfolding cacheValid_def by auto
        ultimately show ?thesis by simp
      qed
    qed
  qed
qed

lemma importStep_cacheValid:
  assumes "cacheValid host (fileReader options) c"
  shows "cacheValid host (fileReader options) (snd (importStep host options imp (s, c)))"
proof (cases "\<not> truthy (currentFilePath options)
                \<or> \<not> (case followImports options of None \<Rightarrow> True | Some b \<Rightarrow> b)")
  case True
  then have "snd (importStep host options imp (s, c)) = c"
    by (auto simp: importStep_def)
  with assms show ?thesis by simp
next
  case False
  then have "snd (importStep host options imp (s, c))
               = snd (resolveImport host (the (currentFilePath options)) (sourcePath imp)
                        (importedName imp)
                        (\<lambda>importAst filePath c.
                           buildSymbolTable host importAst
                             \<lparr>currentFilePath = Some filePath, followImports = Some False,
                              fileReader = fileReader options\<rparr> c)
                        (fileReader options) c)"
    by (auto simp: importStep_def split: prod.splits option.splits)
  with resolveImport_cacheValid[OF assms] show ?thesis by simp
qed

lemma resolveImport_default_valid:
  assumes "cacheValid host reader cache"
    and "path = locate host reader cur src"
    and "\<And>content importedAst. read reader path = Inr content \<Longrightarrow>
            parse host content = Inr importedAst \<Longrightarrow>
            ''default'' \<notin> set (declaredNames importedAst)"
  shows "fst (resolveImport host cur src ''default''
                (\<lambda>importAst filePath c.
                   buildSymbolTable host importAst
                     \<lparr>currentFilePath = Some filePath, followImports = Some False,
                      fileReader = reader\<rparr> c) reader cache) \<in> {None, Some Unresolved}"
proof (cases "cache path")
  case None
  show ?thesis
    by (rule resolveImport_default
               [of path host reader cur src cache, OF assms(2) None assms(3)])
next
  case (Some T)
  with assms(1) obtain content importedAst
    where r: "read reader path = Inr content" and p: "parse host content = Inr importedAst"
      and T: "T = fst (buildSymbolTable host importedAst
                        \<lparr>currentFilePath = Some path, followImports = Some False,
                         fileReader = reader\<rparr> Map.empty)"
    unfolding cacheValid_def by blast
  have "buildSymbolTable host importedAst
          \<lparr>currentFilePath = Some path, followImports = Some False, fileReader = reader\<rparr>
          Map.empty = (T, Map.empty)"
    using no_follow_any_cache[of host importedAst path reader Map.empty] T by simp
  from default_of_no_follow[OF assms(3)[OF r p] this]
  have "getExportedValue T ''default'' \<in> {None, Some Unresolved}" .
  with Some assms(2) show ?thesis
    by (cases "exists reader path") (simp_all add: resolveImport_def)
qed

lemma fold_importStep_default:
  assumes "cacheValid host (fileReader options) c"
    and "\<forall>imp \<in> set pending. localName imp = l \<longrightarrow>
           importedName imp = ''default''
           \<and> (\<forall>content importedAst.
                 read (fileReader options)
                   (locate host (fileReader options) (the (currentFilePath options))
                      (sourcePath imp)) = Inr content
                 \<longrightarrow> parse host content = Inr importedAst
                 \<longrightarrow> ''default'' \<notin> set (declaredNames importedAst))"
    and "l \<in> localName ` set pending \<or> map_of s l = Some Unresolved"
  shows "map_of (fst (fold (importStep host options) pending (s, c))) l = Some Unresolved
         \<and> cacheValid host (fileReader options)
              (snd (fold (importStep host options) pending (s, c)))"
  using assms
proof (induction pending arbitrary: s c)
  case Nil
  then show ?case by simp
next
  case (Cons imp pending)
  obtain s' c' where st: "importStep host options imp (s, c) = (s', c')"
    by (cases "importStep host options imp (s, c)")
  have v': "cacheValid host (fileReader options) c'"
    using importStep_cacheValid[OF Cons.prems(1), of imp s] st by simp
  have rest: "\<forall>imp \<in> set pending. localName imp = l \<longrightarrow>
           importedName imp = ''default''
           \<and> (\<forall>content importedAst.
                 read (fileReader options)
                   (locate host (fileReader options) (the (currentFilePath options))
                      (sourcePath imp)) = Inr content
                 \<longrightarrow> parse host content = Inr importedAst
                 \<longrightarrow> ''default'' \<notin> set (declaredNames importedAst))"
    using Cons.prems(2) by simp
  have bound: "l \<in> localName ` set pending \<or> map_of s' l = Some Unresolved"
  proof (cases "localName imp = l")
    case True
    with Cons.prems(2) have d: "importedName imp = ''default''"
      and f: "\<And>content importedAst.
                 read (fileReader options)
                   (locate host (fileReader options) (the (currentFilePath options))
                      (sourcePath imp)) = Inr content
                 \<Longrightarrow> parse host content = Inr importedAst
                 \<Longrightarrow> ''default'' \<notin> set (declaredNames importedAst)"
      by auto
    have "fst (resolveImport host (the (currentFilePath options)) (sourcePath imp)
                (importedName imp)
                (\<lambda>importAst filePath c.
                   buildSymbolTable host importAst
                     \<lparr>currentFilePath = Some filePath, followImports = Some False,
                      fileReader = fileReader options\<rparr> c)
                (fileReader options) c) \<in> {None, Some Unresolved}"
      unfolding d
      by (rule resolveImport_default_valid
                 [of host "fileReader options" c _ "the (currentFilePath options)"
                     "sourcePath imp", OF Cons.prems(1) refl f])
    from importStep_unresolved[OF this, of s] st True show ?thesis by simp
  next
    case False
    then have "map_of s' l = map_of s l"
      using st by (auto simp: importStep_def AList.update_conv' split: if_splits prod.splits option.splits)
    with Cons.prems(3) False show ?thesis by auto
  qed
  from Cons.IH[OF v' rest bound] st show ?case by simp
qed

text \<open>
  C9. \<^verbatim>\<open>buildSymbolTable\<close> creates no binding from an export-default declaration:
  visiting one does what visiting its declaration does. So a local name that the file
  imports only as a default import, whose requested export name is \<^verbatim>\<open>default\<close>,
  is bound to Unresolved in the table unless an imported file declares a variable named
  \<^verbatim>\<open>default\<close>, whether the imported file is read or served from the cache. The cache
  is one of a run: the cleared cache is, and \<^verbatim>\<open>buildSymbolTable\<close> returns one.
\<close>

theorem default_import_unresolved:
  assumes "cacheValid host (fileReader options) cache"
    and "l \<in> localName ` set (snd (visit ast ([], [])))"
    and "\<forall>imp \<in> set (snd (visit ast ([], []))). localName imp = l \<longrightarrow>
           importedName imp = ''default''
           \<and> (\<forall>content importedAst.
                 read (fileReader options)
                   (locate host (fileReader options) (the (currentFilePath options))
                      (sourcePath imp)) = Inr content
                 \<longrightarrow> parse host content = Inr importedAst
                 \<longrightarrow> ''default'' \<notin> set (declaredNames importedAst))"
  shows "map_of (fst (buildSymbolTable host ast options cache)) l = Some Unresolved
         \<and> cacheValid host (fileReader options) (snd (buildSymbolTable host ast options cache))
         \<and> cacheValid host (fileReader options) (clearImportCache cache)
         \<and> visit (OtherNode ''ExportDefaultDeclaration'' [d]) st = visit d st"
proof (intro conjI)
  note f = fold_importStep_default
             [of host options cache "snd (visit ast ([], []))" l "fst (visit ast ([], []))",
              OF assms(1) assms(3) disjI1, OF assms(2)]
  show "map_of (fst (buildSymbolTable host ast options cache)) l = Some Unresolved"
    using f by (simp add: buildSymbolTable_steps)
  show "cacheValid host (fileReader options) (snd (buildSymbolTable host ast options cache))"
    using f by (simp add: buildSymbolTable_steps)
  show "cacheValid host (fileReader options) (clearImportCache cache)"
    by (simp add: clearImportCache_def cacheValid_empty)
  show "visit (OtherNode ''ExportDefaultDeclaration'' [d]) st = visit d st"
    by (subst visit.simps) (simp add: visitOwn_def)
qed

theorem default_import_unresolved_witness:
  "map_of (fst (buildSymbolTable
                  (mockHost [(''export default text'', exportDefault ''default-value'')])
                  twoDefaultImports
                  \<lparr>currentFilePath = Some ''/project/component.tsx'', followImports = Some True,
                   fileReader = createMockFileReader
                                  [(''/project/tokens.ts'', ''export default text'')]\<rparr>
                  Map.empty)) ''other'' = Some Unresolved"
proof -
  let ?host = "mockHost [(''export default text'', exportDefault ''default-value'')]"
  let ?reader = "createMockFileReader [(''/project/tokens.ts'', ''export default text'')]"
  let ?options = "\<lparr>currentFilePath = Some ''/project/component.tsx'',
                    followImports = Some True, fileReader = ?reader\<rparr>"
  let ?imp1 = "\<lparr>localName = ''tokens'', importedName = ''default'', sourcePath = ''./tokens''\<rparr>"
  let ?imp2 = "\<lparr>localName = ''other'', importedName = ''default'', sourcePath = ''./tokens''\<rparr>"
  have v: "visit twoDefaultImports ([], []) = ([], [?imp1, ?imp2])"
    by (simp add: visit.simps visitOwn_def queueImports_def twoDefaultImports_def)
  have c: "cacheValid ?host (fileReader ?options) Map.empty"
    by (simp add: cacheValid_def)
  have l: "''other'' \<in> localName ` set (snd (visit twoDefaultImports ([], [])))"
    by (simp add: v)
  have p: "locate ?host ?reader ''/project/component.tsx'' ''./tokens'' = ''/project/tokens.ts''"
    by (simp add: eval_files)
  have d: "''default'' \<notin> set (declaredNames importedAst)"
    if "read ?reader ''/project/tokens.ts'' = Inr content"
      and "parse ?host content = Inr importedAst" for content importedAst
  proof -
    from that(1) have c: "content = ''export default text''"
      by (simp add: createMockFileReader_def)
    from that(2) have "importedAst = exportDefault ''default-value''"
      unfolding c by (simp add: mockHost_def)
    then show ?thesis
      by (simp add: exportDefault_def declaredNames_def subnodes.simps declaredIn_def)
  qed
  have h: "\<forall>imp \<in> set (snd (visit twoDefaultImports ([], []))). localName imp = ''other'' \<longrightarrow>
           importedName imp = ''default''
           \<and> (\<forall>content importedAst.
                 read (fileReader ?options)
                   (locate ?host (fileReader ?options) (the (currentFilePath ?options))
                      (sourcePath imp)) = Inr content
                 \<longrightarrow> parse ?host content = Inr importedAst
                 \<longrightarrow> ''default'' \<notin> set (declaredNames importedAst))"
    using d by (simp add: v p)
  from default_import_unresolved[OF c l h, THEN conjunct1]
  show ?thesis .
qed

section \<open>Template bindings\<close>










end
